theory Spec2Isabelle
  imports Main "HOL-Library.Word"
begin

unbundle bit_operations_syntax

text \<open>
  The package \<open>cmdio\<close> runs one external command per controller (\<open>CmdIo\<close>), reports
  its timing and exit status in an \<open>Info\<close> record, and lets the caller terminate it.
  This theory embeds \<open>cmdio.go\<close> and \<open>darwin.go\<close>: the operations as functions on the
  controller, the goroutine of \<open>runFn\<close> and the callers as atomic steps that interleave,
  and what the operating system and the Go library hand to the code as arguments.
\<close>

section \<open>Values of the Go runtime that the package uses\<close>

subsection \<open>Time\<close>

text \<open>
  A \<open>time.Time\<close> is the number of nanoseconds since Go's zero Time (January 1, year 1,
  00:00:00 UTC); the zero value of the type is \<open>0\<close>. A \<open>time.Duration\<close> is an int64
  count of nanoseconds and \<open>Time.Sub\<close> saturates at the ends of that range.
\<close>

type_synonym time = int

definition zeroTime :: time where
  "zeroTime = 0"

definition maxDuration :: int where
  "maxDuration = 2 ^ 63 - 1"

definition minDuration :: int where
  "minDuration = - (2 ^ 63)"

definition time_Sub :: "time \<Rightarrow> time \<Rightarrow> int" where
  "time_Sub t u =
     (let d = t - u
      in if maxDuration < d then maxDuration
         else if d < minDuration then minDuration
         else d)"

text \<open>Nanoseconds between the zero Time and January 1, 1970 UTC.\<close>

definition unixEpoch :: int where
  "unixEpoch = 62135596800 * 1000000000"

text \<open>
  \<open>Time.UnixNano\<close>; exact for the dates whose Unix time in nanoseconds fits an int64
  (1678 to 2262), which is where Go defines it.
\<close>

definition UnixNano :: "time \<Rightarrow> int" where
  "UnixNano t = t - unixEpoch"

subsection \<open>Errors and wait statuses\<close>

text \<open>
  \<open>syscall.WaitStatus\<close> on Darwin is a uint32: the low seven bits hold the terminating
  signal (0 for a normal exit, 0x7F for a stopped process), the next byte up the exit status.
\<close>

type_synonym WaitStatus = "32 word"

definition ws_mask :: "32 word" where
  "ws_mask = 0x7F"

definition ws_stopped :: "32 word" where
  "ws_stopped = 0x7F"

definition ws_Exited :: "WaitStatus \<Rightarrow> bool" where
  "ws_Exited w = (w AND ws_mask = 0)"

definition ws_Signaled :: "WaitStatus \<Rightarrow> bool" where
  "ws_Signaled w = (w AND ws_mask \<noteq> ws_stopped \<and> w AND ws_mask \<noteq> 0)"

definition ws_ExitStatus :: "WaitStatus \<Rightarrow> int" where
  "ws_ExitStatus w = (if w AND ws_mask \<noteq> 0 then - 1 else uint (drop_bit 8 w))"

definition ws_Signal :: "WaitStatus \<Rightarrow> int" where
  "ws_Signal w = (let sig = w AND ws_mask in if sig = ws_stopped then - 1 else uint sig)"

text \<open>
  The values of Go's \<open>error\<close> interface that reach the package: an \<open>*exec.ExitError\<close>
  with the wait status of the process, a \<open>syscall.Errno\<close>, and every other error, kept by
  its message.
\<close>

datatype error = ExitError WaitStatus | Errno nat | ErrorString string

definition SIGTERM :: int where
  "SIGTERM = 15"

definition SIGKILL :: int where
  "SIGKILL = 9"

text \<open>A system call the package issues: \<open>syscall.Kill(pid, sig)\<close>.\<close>

datatype syscall = Kill int int

section \<open>The data model of \<open>cmdio.go\<close>\<close>

text \<open>Streams are told apart by identity only: the three standard ones and the caller's.\<close>

datatype reader = OsStdin | Reader nat

datatype writer = OsStdout | OsStderr | Writer nat | MultiWriter "writer list"

text \<open>\<open>user.User\<close>: the two fields the package reads.\<close>

record User =
  Uid :: string
  Gid :: string

text \<open>
  \<open>Options\<close>. A nil interface or pointer is \<open>None\<close>; a slice is \<open>None\<close> when nil and
  \<open>Some xs\<close> otherwise, so that the empty slice \<open>[]string{}\<close> is \<open>Some []\<close>.
\<close>

record Options =
  In :: "reader option"
  Out :: "writer option"
  Err :: "writer option"
  Env :: "string list option"
  Usr :: "User option"

definition len :: "'a list option \<Rightarrow> nat" where
  "len s = (case s of None \<Rightarrow> 0 | Some xs \<Rightarrow> length xs)"

record Info =
  Error :: "error option"
  RunT :: int
  Pid :: int
  Exit :: int
  StartT :: int
  EndT :: int
  Finished :: bool
  Signaled :: bool

datatype status = uninitialized | exited | running | signaled

text \<open>
  \<open>CmdIo\<close>. The mutex \<open>lok\<close> is the atomicity of the operations below; the
  \<open>sync.Once\<close> \<open>ini\<close> is its done flag; a buffered channel is the list of the values it
  holds, oldest first, and the unbuffered \<open>syn\<close>, which is only ever closed, is whether it
  has been closed.
\<close>

record CmdIo =
  cin :: "reader option"
  out :: "writer option"
  err :: "writer option"
  env :: "string list option"
  usr :: "User option"
  ini :: bool
  sta :: status
  inf :: Info
  str :: time
  ech :: "Info list"
  sch :: "bool list"
  syn :: bool

text \<open>The capacities given to \<open>make\<close> in \<open>New\<close>.\<close>

definition ech_cap :: nat where
  "ech_cap = 1"

definition sch_cap :: nat where
  "sch_cap = 1"

text \<open>What the package reads of the controlling process.\<close>

record os =
  Environ :: "string list"
  PWD :: string
  Current :: "User option"

text \<open>The result of a call that may have to wait for another goroutine.\<close>

datatype 'a outcome = Returns 'a | Blocks

text \<open>The goroutines a call starts with \<open>go\<close>.\<close>

datatype goroutine = GoSignalHandler | GoRunFn string "string list"

section \<open>The operations of \<open>cmdio.go\<close>\<close>

definition New :: "os \<Rightarrow> Options \<Rightarrow> CmdIo" where
  "New sys opts =
     (let u = (case Usr opts of None \<Rightarrow> Current sys | Some x \<Rightarrow> Some x)
      in \<lparr>cin = In opts, out = Out opts, err = Err opts, env = Env opts, usr = u,
          ini = False, sta = uninitialized,
          inf = \<lparr>Error = None, RunT = 0, Pid = 0, Exit = - 1, StartT = 0, EndT = 0,
                 Finished = False, Signaled = False\<rparr>,
          str = zeroTime, ech = [], sch = [], syn = False\<rparr>)"

definition reuseInfo :: Info where
  "reuseInfo =
     \<lparr>Error = Some (ErrorString ''already executed, can not reuse CmdIo''),
      RunT = 0, Pid = 0, Exit = 0, StartT = 0, EndT = 0,
      Finished = True, Signaled = False\<rparr>"

text \<open>
  \<open>Start\<close>, the caller's side: the first call passes the once-gate and starts the two
  goroutines; a later call sends the reuse record on \<open>ech\<close>, which waits while the
  channel's buffer is full. The two channels it returns are fields of the controller.
\<close>

definition Start :: "CmdIo \<Rightarrow> string \<Rightarrow> string list \<Rightarrow> (CmdIo \<times> goroutine list) outcome" where
  "Start c name args =
     (if \<not> ini c then Returns (c\<lparr>ini := True\<rparr>, [GoSignalHandler, GoRunFn name args])
      else if length (ech c) < ech_cap then Returns (c\<lparr>ech := ech c @ [reuseInfo]\<rparr>, [])
      else Blocks)"

text \<open>
  \<open>Terminate\<close>; \<open>k\<close> is what \<open>syscall.Kill\<close> returns. The result is the controller, the
  system calls made and the error returned.
\<close>

definition Terminate :: "error option \<Rightarrow> CmdIo \<Rightarrow> CmdIo \<times> syscall list \<times> error option" where
  "Terminate k c =
     (if sta c = uninitialized \<or> Finished (inf c) then (c, [], None)
      else (c\<lparr>sta := signaled, inf := (inf c)\<lparr>Signaled := True\<rparr>\<rparr>,
            [Kill (- Pid (inf c)) SIGTERM], k))"

text \<open>\<open>Info\<close>; \<open>now\<close> is what \<open>time.Now()\<close> returns.\<close>

definition Info :: "time \<Rightarrow> CmdIo \<Rightarrow> CmdIo \<times> Info" where
  "Info now c =
     (let c' = (case sta c of
                  running \<Rightarrow> c\<lparr>inf := (inf c)\<lparr>RunT := time_Sub now (str c)\<rparr>\<rparr>
                | exited \<Rightarrow> c\<lparr>inf := (inf c)\<lparr>Finished := True\<rparr>\<rparr>
                | _ \<Rightarrow> c)
      in (c', inf c'))"

text \<open>\<open>init\<close>; \<open>t\<close> is the time taken in \<open>runFn\<close>, \<open>pid\<close> is \<open>cmd.Process.Pid\<close>.\<close>

definition init :: "time \<Rightarrow> int \<Rightarrow> CmdIo \<Rightarrow> CmdIo" where
  "init t pid c = c\<lparr>inf := (inf c)\<lparr>Pid := pid, StartT := UnixNano t\<rparr>, sta := running\<rparr>"

definition exitErr :: "error \<Rightarrow> int" where
  "exitErr e =
     (case e of
        ExitError ws \<Rightarrow> (let sig = ws_Signal ws in if 0 < sig then sig else ws_ExitStatus ws)
      | _ \<Rightarrow> 0)"

text \<open>\<open>endState\<close>; \<open>now\<close> is what \<open>time.Now()\<close> returns inside it.\<close>

definition endState :: "time \<Rightarrow> time \<Rightarrow> int \<Rightarrow> error option \<Rightarrow> CmdIo \<Rightarrow> CmdIo" where
  "endState t now code e c =
     (let c1 = c\<lparr>inf := (inf c)\<lparr>Error := e, Exit := code, StartT := UnixNano t,
                               EndT := UnixNano now\<rparr>\<rparr>
      in if sta c1 \<noteq> signaled then c1\<lparr>inf := (inf c1)\<lparr>Finished := True\<rparr>, sta := exited\<rparr>
         else c1)"

definition complete :: "time \<Rightarrow> time \<Rightarrow> error option \<Rightarrow> CmdIo \<Rightarrow> CmdIo" where
  "complete t now e c =
     (let code = (case e of None \<Rightarrow> 0 | Some x \<Rightarrow> exitErr x)
      in endState t now code e c)"


section \<open>Building the command: \<open>newCmd\<close>\<close>

text \<open>
  \<open>strconv.Atoi\<close> of the Go library, for the 64-bit \<open>int\<close> of Darwin. A string of 1 to
  18 bytes takes the fast path: an optional sign, then a loop that stops with a syntax
  error at the first byte that is not a digit. Every other string goes to
  \<open>ParseInt(s, 10, 0)\<close>, whose \<open>ParseUint\<close> reads the bytes in order and returns at the
  first one that is not a decimal digit (a syntax error, value 0) or that takes the value
  out of uint64 (a range error, value \<open>maxUint64\<close>), whichever comes first; \<open>ParseInt\<close>
  then clamps a value outside int64 and reports a range error.
\<close>

definition isDigit :: "char \<Rightarrow> bool" where
  "isDigit ch = (48 \<le> (of_char ch :: nat) \<and> (of_char ch :: nat) \<le> 57)"

definition ErrSyntax :: error where
  "ErrSyntax = ErrorString ''invalid syntax''"

definition ErrRange :: error where
  "ErrRange = ErrorString ''value out of range''"

definition maxUint64 :: nat where
  "maxUint64 = 2 ^ 64 - 1"

text \<open>The loop of the fast path of \<open>Atoi\<close>; \<open>None\<close> is its syntax error.\<close>

fun atoi_loop :: "string \<Rightarrow> nat \<Rightarrow> nat option" where
  "atoi_loop [] n = Some n"
| "atoi_loop (ch # s) n =
     (if isDigit ch then atoi_loop s (n * 10 + (of_char ch - 48)) else None)"

text \<open>
  The loop of \<open>ParseUint\<close> in base 10: \<open>n\<close> is the value so far. The cutoff is
  \<open>maxUint64/10 + 1\<close>; the sum \<open>n1\<close> overflows uint64 exactly when it exceeds
  \<open>maxUint64\<close> here.
\<close>

fun ParseUint_loop :: "string \<Rightarrow> nat \<Rightarrow> nat \<times> error option" where
  "ParseUint_loop [] n = (n, None)"
| "ParseUint_loop (ch # s) n =
     (if \<not> isDigit ch then (0, Some ErrSyntax)
      else if maxUint64 div 10 + 1 \<le> n then (maxUint64, Some ErrRange)
      else (let n1 = n * 10 + (of_char ch - 48)
            in if maxUint64 < n1 then (maxUint64, Some ErrRange)
               else ParseUint_loop s n1))"

definition ParseUint :: "string \<Rightarrow> nat \<times> error option" where
  "ParseUint s = (if s = [] then (0, Some ErrSyntax) else ParseUint_loop s 0)"

definition ParseInt :: "string \<Rightarrow> int \<times> error option" where
  "ParseInt s0 =
     (if s0 = [] then (0, Some ErrSyntax)
      else (let neg = (hd s0 = CHR ''-'');
                s = (if hd s0 = CHR ''+'' \<or> hd s0 = CHR ''-'' then tl s0 else s0);
                r = ParseUint s;
                un = fst r;
                err = snd r
            in if err \<noteq> None \<and> err \<noteq> Some ErrRange then (0, err)
               else if \<not> neg \<and> 2 ^ 63 \<le> un then (2 ^ 63 - 1, Some ErrRange)
               else if neg \<and> 2 ^ 63 < un then (- (2 ^ 63), Some ErrRange)
               else (if neg then - int un else int un, None)))"

definition Atoi :: "string \<Rightarrow> int \<times> error option" where
  "Atoi s0 =
     (if 0 < length s0 \<and> length s0 < 19
      then (let s = (if hd s0 = CHR ''-'' \<or> hd s0 = CHR ''+'' then tl s0 else s0)
            in if length s < 1 then (0, Some ErrSyntax)
               else (case atoi_loop s 0 of
                       None \<Rightarrow> (0, Some ErrSyntax)
                     | Some n \<Rightarrow> (if hd s0 = CHR ''-'' then - int n else int n, None)))
      else ParseInt s0)"

record Credential =
  cred_Uid :: "32 word"
  cred_Gid :: "32 word"
  NoSetGroups :: bool

record SysProcAttr =
  Credential :: Credential
  Setsid :: bool

text \<open>\<open>exec.Cmd\<close>: the fields \<open>newCmd\<close> sets.\<close>

record Cmd =
  Path :: string
  Args :: "string list"
  SysProcAttr :: SysProcAttr
  Stdin :: reader
  Stdout :: writer
  Stderr :: writer
  Dir :: string
  cmd_Env :: "string list option"

text \<open>\<open>syscallAttrs\<close> of \<open>darwin.go\<close>.\<close>

definition syscallAttrs :: "Credential \<Rightarrow> SysProcAttr" where
  "syscallAttrs cred = \<lparr>Credential = cred, Setsid = True\<rparr>"

text \<open>
  \<open>newCmd\<close>. It reads through the pointer \<open>c.usr\<close>, so a controller without a user
  panics: the result is \<open>None\<close> then.
\<close>

definition newCmd :: "os \<Rightarrow> CmdIo \<Rightarrow> string \<Rightarrow> string list \<Rightarrow> Cmd option" where
  "newCmd sys c name args =
     (case usr c of
        None \<Rightarrow> None
      | Some u \<Rightarrow>
          (let uid = fst (Atoi (Uid u));
               gid = fst (Atoi (Gid u));
               cred = \<lparr>cred_Uid = word_of_int uid, cred_Gid = word_of_int gid,
                       NoSetGroups = True\<rparr>;
               stdin = (if cin c \<noteq> None \<and> cin c \<noteq> Some OsStdin then the (cin c)
                        else OsStdin);
               stdout = (if out c \<noteq> None \<and> out c \<noteq> Some OsStdout
                         then MultiWriter [the (out c), OsStdout] else OsStdout);
               stderr = (if err c \<noteq> None \<and> err c \<noteq> Some OsStderr
                         then MultiWriter [the (err c), OsStderr] else OsStderr);
               e = (if 0 < len (env c) then env c else Some (Environ sys))
           in Some \<lparr>Path = name, Args = name # args, SysProcAttr = syscallAttrs cred,
                    Stdin = stdin, Stdout = stdout, Stderr = stderr,
                    Dir = PWD sys, cmd_Env = e\<rparr>))"

section \<open>The process table: \<open>darwin.go\<close>\<close>

type_synonym byte = "8 word"

definition kinfoStructSize :: nat where
  "kinfoStructSize = 648"

text \<open>\<open>kinfoProc\<close>: the named fields; the blank ones are padding.\<close>

record kinfoProc =
  kp_Pid :: "32 word"
  kp_Comm :: "byte list"
  kp_PPid :: "32 word"

text \<open>A little-endian int32 at byte offset \<open>off\<close>.\<close>

definition le32 :: "byte list \<Rightarrow> nat \<Rightarrow> 32 word" where
  "le32 bs off =
     ucast (bs ! off) OR push_bit 8 (ucast (bs ! (off + 1)))
       OR push_bit 16 (ucast (bs ! (off + 2))) OR push_bit 24 (ucast (bs ! (off + 3)))"

definition ErrEOF :: error where
  "ErrEOF = ErrorString ''EOF''"

definition ErrUnexpectedEOF :: error where
  "ErrUnexpectedEOF = ErrorString ''unexpected EOF''"

text \<open>
  \<open>binary.Read\<close> of a \<open>kinfoProc\<close>, little-endian: it needs all 648 bytes of the
  struct (40 of padding, Pid, 199 of padding, Comm, 301 of padding, PPid, 84 of padding).
\<close>

definition binary_Read :: "byte list \<Rightarrow> error + kinfoProc" where
  "binary_Read bs =
     (if bs = [] then Inl ErrEOF
      else if length bs < kinfoStructSize then Inl ErrUnexpectedEOF
      else Inr \<lparr>kp_Pid = le32 bs 40, kp_Comm = take 16 (drop 243 bs), kp_PPid = le32 bs 560\<rparr>)"

text \<open>
  The first loop of \<open>children\<close>: \<open>k\<close> and \<open>i\<close> are its two indices, \<open>buf\<close> the
  buffer, whose \<open>Len\<close> never changes since nothing is read from it, \<open>procs\<close> the records
  parsed so far.
\<close>

function children_loop ::
  "nat \<Rightarrow> nat \<Rightarrow> byte list \<Rightarrow> kinfoProc list \<Rightarrow> error + kinfoProc list" where
  "children_loop k i buf procs =
     (if i < length buf
      then (case binary_Read (take (i - k) (drop k buf)) of
              Inl e \<Rightarrow> Inl e
            | Inr proc \<Rightarrow> children_loop i (i + kinfoStructSize) buf (procs @ [proc]))
      else Inr procs)"
  by pat_completeness auto
termination
  by (relation "measure (\<lambda>(k, i, buf, procs). length buf - i)")
     (auto simp: kinfoStructSize_def)

declare children_loop.simps [simp del]

text \<open>\<open>children\<close>; \<open>q\<close> is what \<open>darwinSyscall\<close> returns.\<close>

definition children :: "int \<Rightarrow> error + byte list \<Rightarrow> error + int list" where
  "children ppid q =
     (case q of
        Inl e \<Rightarrow> Inl e
      | Inr buf \<Rightarrow>
          (case children_loop 0 kinfoStructSize buf [] of
             Inl e \<Rightarrow> Inl e
           | Inr procs \<Rightarrow>
               Inr (map (\<lambda>p. sint (kp_Pid p)) (filter (\<lambda>p. ppid = sint (kp_PPid p)) procs))))"

text \<open>\<open>killChildren\<close>: the system calls it makes; \<open>pid\<close> is \<open>os.Getpid()\<close>.\<close>

definition killChildren :: "int \<Rightarrow> error + byte list \<Rightarrow> syscall list" where
  "killChildren pid q =
     (case children pid q of
        Inl e \<Rightarrow> []
      | Inr ch \<Rightarrow> map (\<lambda>p. Kill p SIGKILL) ch)"


section \<open>The goroutine of \<open>runFn\<close> and its interleavings\<close>

text \<open>
  Where the goroutine running \<open>runFn\<close> stands. \<open>AtSch b t\<close>: about to send \<open>b\<close> on
  \<open>sch\<close>, having taken the time \<open>t\<close>; \<open>Waiting t\<close>: in \<open>cmd.Wait\<close>; \<open>AtInfo\<close>,
  \<open>AtEch\<close> and \<open>AtClose\<close>: the three steps of the deferred function, whose flag says
  that they run because \<open>newCmd\<close> panicked; \<open>Crashed\<close>: the panic has ended the process.
\<close>

datatype task =
    Idle
  | Spawned string "string list"
  | AtSch bool time
  | Waiting time
  | AtInfo bool
  | AtEch bool Info
  | AtClose bool
  | Done
  | Crashed

text \<open>
  The history: what \<open>cmd.Start\<close> returned (an error or the pid), and what has been done to
  the three channels: the send on \<open>sch\<close>, the send of \<open>runFn\<close> on \<open>ech\<close>, the send of
  a rejected \<open>Start\<close> on \<open>ech\<close>, the closing of \<open>syn\<close>.
\<close>

datatype event =
    Launched "error + int"
  | LaunchSignal bool
  | ResultSignal Info
  | ReuseSignal Info
  | JoinClosed

text \<open>
  A controller at run time: the object, its goroutine, and two histories, of the
  goroutines its calls have started and of the channel events, oldest first.
\<close>

record ctl =
  obj :: CmdIo
  task :: task
  spawned :: "goroutine list"
  log :: "event list"

definition boot :: "os \<Rightarrow> Options \<Rightarrow> ctl" where
  "boot sys opts = \<lparr>obj = New sys opts, task = Idle, spawned = [], log = []\<rparr>"

text \<open>
  The atomic steps. A call carries its arguments and what the system hands it: the clock
  readings, the result of \<open>syscall.Kill\<close>, of \<open>cmd.Start\<close> (an error or the pid) and of
  \<open>cmd.Wait\<close>. The steps of \<open>runFn\<close> are the sections it runs under the lock and its
  channel operations; what it computes on its own goes with the section that follows.
\<close>

datatype action =
    CallStart string "string list"
  | CallTerminate "error option"
  | CallInfo time
  | RecvEch
  | RecvSch
  | RunLaunch time time "error + int"
  | RunSch
  | RunWait time "error option"
  | RunInfo time
  | RunEch
  | RunClose

fun launch :: "goroutine list \<Rightarrow> task \<Rightarrow> task" where
  "launch [] t = t"
| "launch (GoSignalHandler # gs) t = launch gs t"
| "launch (GoRunFn name args # gs) t = Spawned name args"

text \<open>
  One step; \<open>None\<close> when the step cannot be taken now: a send on a full channel, a
  receive on an empty one, a step of \<open>runFn\<close> that is not its next one, any step once the
  process has crashed.
\<close>

fun fire :: "os \<Rightarrow> action \<Rightarrow> ctl \<Rightarrow> ctl option" where
  "fire sys (CallStart name args) s =
     (if task s = Crashed then None
      else (case Start (obj s) name args of
              Blocks \<Rightarrow> None
            | Returns (c', gs) \<Rightarrow>
                Some (s\<lparr>obj := c', task := launch gs (task s), spawned := spawned s @ gs,
                        log := log s @ map ReuseSignal (drop (length (ech (obj s))) (ech c'))\<rparr>)))"
| "fire sys (CallTerminate k) s =
     (if task s = Crashed then None else Some (s\<lparr>obj := fst (Terminate k (obj s))\<rparr>))"
| "fire sys (CallInfo now) s =
     (if task s = Crashed then None else Some (s\<lparr>obj := fst (Info now (obj s))\<rparr>))"
| "fire sys RecvEch s =
     (if task s = Crashed then None
      else (case ech (obj s) of
              [] \<Rightarrow> None
            | v # rest \<Rightarrow> Some (s\<lparr>obj := (obj s)\<lparr>ech := rest\<rparr>\<rparr>)))"
| "fire sys RecvSch s =
     (if task s = Crashed then None
      else (case sch (obj s) of
              [] \<Rightarrow> None
            | b # rest \<Rightarrow> Some (s\<lparr>obj := (obj s)\<lparr>sch := rest\<rparr>\<rparr>)))"
| "fire sys (RunLaunch t now r) s =
     (case task s of
        Spawned name args \<Rightarrow>
          (case newCmd sys (obj s) name args of
             None \<Rightarrow> Some (s\<lparr>task := AtInfo True\<rparr>)
           | Some cmd \<Rightarrow>
               (case r of
                  Inl e \<Rightarrow>
                    Some (s\<lparr>obj := complete t now (Some e) (obj s), task := AtSch False t,
                            log := log s @ [Launched r]\<rparr>)
                | Inr pid \<Rightarrow>
                    Some (s\<lparr>obj := init t pid (obj s), task := AtSch True t,
                            log := log s @ [Launched r]\<rparr>)))
      | _ \<Rightarrow> None)"
| "fire sys RunSch s =
     (case task s of
        AtSch b t \<Rightarrow>
          (if length (sch (obj s)) < sch_cap
           then Some (s\<lparr>obj := (obj s)\<lparr>sch := sch (obj s) @ [b]\<rparr>,
                        task := (if b then Waiting t else AtInfo False),
                        log := log s @ [LaunchSignal b]\<rparr>)
           else None)
      | _ \<Rightarrow> None)"
| "fire sys (RunWait now e) s =
     (case task s of
        Waiting t \<Rightarrow> Some (s\<lparr>obj := complete t now e (obj s), task := AtInfo False\<rparr>)
      | _ \<Rightarrow> None)"
| "fire sys (RunInfo now) s =
     (case task s of
        AtInfo p \<Rightarrow> Some (s\<lparr>obj := fst (Info now (obj s)), task := AtEch p (snd (Info now (obj s)))\<rparr>)
      | _ \<Rightarrow> None)"
| "fire sys RunEch s =
     (case task s of
        AtEch p v \<Rightarrow>
          (if length (ech (obj s)) < ech_cap
           then Some (s\<lparr>obj := (obj s)\<lparr>ech := ech (obj s) @ [v]\<rparr>, task := AtClose p,
                        log := log s @ [ResultSignal v]\<rparr>)
           else None)
      | _ \<Rightarrow> None)"
| "fire sys RunClose s =
     (case task s of
        AtClose p \<Rightarrow>
          Some (s\<lparr>obj := (obj s)\<lparr>syn := True\<rparr>, task := (if p then Crashed else Done),
                  log := log s @ [JoinClosed]\<rparr>)
      | _ \<Rightarrow> None)"

text \<open>A schedule: the steps in the order they are taken.\<close>

fun exec :: "os \<Rightarrow> action list \<Rightarrow> ctl \<Rightarrow> ctl option" where
  "exec sys [] s = Some s"
| "exec sys (a # as) s = (case fire sys a s of None \<Rightarrow> None | Some s' \<Rightarrow> exec sys as s')"


section \<open>Notions the properties are stated with\<close>

text \<open>A decimal integer: an optional sign, then one digit or more.\<close>

definition validDecimal :: "string \<Rightarrow> bool" where
  "validDecimal s =
     (case s of
        [] \<Rightarrow> False
      | ch # r \<Rightarrow>
          if ch = CHR ''+'' \<or> ch = CHR ''-'' then r \<noteq> [] \<and> list_all isDigit r
          else list_all isDigit s)"

text \<open>
  A string without its sign, the number that a string of digits writes, and the strings
  whose digits up to the first other byte already write a number beyond uint64.
\<close>

definition unsign :: "string \<Rightarrow> string" where
  "unsign s =
     (case s of
        [] \<Rightarrow> []
      | ch # r \<Rightarrow> if ch = CHR ''+'' \<or> ch = CHR ''-'' then r else s)"

definition decimal_value :: "string \<Rightarrow> nat" where
  "decimal_value ds = foldl (\<lambda>n ch. n * 10 + (of_char ch - 48)) 0 ds"

definition leading_overflow :: "string \<Rightarrow> bool" where
  "leading_overflow s = (maxUint64 < decimal_value (takeWhile isDigit (unsign s)))"

definition negative :: "string \<Rightarrow> bool" where
  "negative s = (s \<noteq> [] \<and> hd s = CHR ''-'')"

text \<open>The record of the process table that starts at byte \<open>648 * j\<close>.\<close>

definition record_at :: "byte list \<Rightarrow> nat \<Rightarrow> kinfoProc" where
  "record_at buf j =
     (let bs = take kinfoStructSize (drop (j * kinfoStructSize) buf)
      in \<lparr>kp_Pid = le32 bs 40, kp_Comm = take 16 (drop 243 bs), kp_PPid = le32 bs 560\<rparr>)"

text \<open>The 648 bytes of a record with the given pid and parent pid, all else zero.\<close>

definition le_bytes :: "32 word \<Rightarrow> byte list" where
  "le_bytes w = [ucast w, ucast (drop_bit 8 w), ucast (drop_bit 16 w), ucast (drop_bit 24 w)]"

definition kinfo_bytes :: "32 word \<Rightarrow> 32 word \<Rightarrow> byte list" where
  "kinfo_bytes pid ppid =
     replicate 40 0 @ le_bytes pid @ replicate 199 0 @ replicate 16 0 @ replicate 301 0
       @ le_bytes ppid @ replicate 84 0"

text \<open>
  How many \<open>signalHandler\<close> goroutines the controllers of a process have started; each one
  registers a channel of its own with \<open>signal.Notify\<close>.
\<close>

definition installed :: "ctl list \<Rightarrow> nat" where
  "installed cs = sum_list (map (\<lambda>s. count_list (spawned s) GoSignalHandler) cs)"

fun is_result :: "event \<Rightarrow> bool" where
  "is_result (ResultSignal v) = True"
| "is_result _ = False"

fun is_started :: "event \<Rightarrow> bool" where
  "is_started (Launched (Inr pid)) = True"
| "is_started _ = False"

text \<open>The events before the first one that satisfies \<open>P\<close>.\<close>

definition before :: "(event \<Rightarrow> bool) \<Rightarrow> event list \<Rightarrow> event list" where
  "before P evs = takeWhile (\<lambda>e. \<not> P e) evs"

text \<open>The states of the goroutine in which \<open>runFn\<close> has sent its record on \<open>ech\<close>.\<close>

fun result_sent :: "task \<Rightarrow> bool" where
  "result_sent (AtClose p) = True"
| "result_sent Done = True"
| "result_sent Crashed = True"
| "result_sent _ = False"

fun join_closed :: "task \<Rightarrow> bool" where
  "join_closed Done = True"
| "join_closed Crashed = True"
| "join_closed _ = False"

fun not_launched :: "task \<Rightarrow> bool" where
  "not_launched Idle = True"
| "not_launched (Spawned name args) = True"
| "not_launched _ = False"

text \<open>The two flags of a record exclude each other.\<close>

definition exclusive :: "Info \<Rightarrow> bool" where
  "exclusive v = (\<not> (Finished v \<and> Signaled v))"

text \<open>What holds of the state and the two flags whatever the interleaving.\<close>

definition inv_obj :: "CmdIo \<Rightarrow> bool" where
  "inv_obj c =
     ((Signaled (inf c) = (sta c = signaled)) \<and> (sta c = signaled \<longrightarrow> \<not> Finished (inf c)))"

definition inv_flags :: "ctl \<Rightarrow> bool" where
  "inv_flags s =
     (inv_obj (obj s)
      \<and> (not_launched (task s) \<longrightarrow> sta (obj s) = uninitialized)
      \<and> (ini (obj s) = (task s \<noteq> Idle))
      \<and> list_all exclusive (ech (obj s))
      \<and> (case task s of AtEch p v \<Rightarrow> exclusive v | _ \<Rightarrow> True))"

fun at_sch_true :: "task \<Rightarrow> bool" where
  "at_sch_true (AtSch b t) = b"
| "at_sch_true _ = False"

text \<open>What holds of the history whatever the interleaving.\<close>

definition inv_log :: "ctl \<Rightarrow> bool" where
  "inv_log s =
     ((list_ex is_result (log s) = result_sent (task s))
      \<and> ((JoinClosed \<in> set (log s)) = join_closed (task s))
      \<and> (syn (obj s) = join_closed (task s))
      \<and> (list_ex is_started (log s) \<longrightarrow>
            at_sch_true (task s) \<or> LaunchSignal True \<in> set (log s))
      \<and> (list_ex is_result (log s) \<longrightarrow> LaunchSignal True \<in> set (log s) \<longrightarrow>
            LaunchSignal True \<in> set (before is_result (log s)))
      \<and> (JoinClosed \<in> set (log s) \<longrightarrow>
            list_ex is_result (before (\<lambda>e. e = JoinClosed) (log s))))"

section \<open>Concrete runs\<close>

text \<open>
  A controlling process, a configuration, and the clock: \<open>t2020\<close> is January 1, 2020,
  00:00:00 UTC.
\<close>

definition sys0 :: os where
  "sys0 = \<lparr>Environ = [''PATH=/bin''], PWD = ''/tmp'', Current = None\<rparr>"

definition opts0 :: Options where
  "opts0 = \<lparr>In = None, Out = None, Err = None, Env = None,
            Usr = Some \<lparr>Uid = ''501'', Gid = ''20''\<rparr>\<rparr>"

definition t2020 :: time where
  "t2020 = 63713433600 * 1000000000"

text \<open>
  A run to the end of a program that exits with status 0 after two seconds, nothing
  received from the channels.
\<close>

definition sched_exit0 :: "action list" where
  "sched_exit0 =
     [CallStart ''prog'' [], RunLaunch t2020 (t2020 + 1000) (Inr 42), RunSch,
      RunWait (t2020 + 2000000000) None, RunInfo (t2020 + 2000001000), RunEch, RunClose]"

definition info_exit0 :: Info where
  "info_exit0 =
     \<lparr>Error = None, RunT = 0, Pid = 42, Exit = 0, StartT = 1577836800000000000,
      EndT = 1577836802000000000, Finished = True, Signaled = False\<rparr>"

definition s_exit0 :: ctl where
  "s_exit0 =
     \<lparr>obj = \<lparr>cin = None, out = None, err = None, env = None,
             usr = Some \<lparr>Uid = ''501'', Gid = ''20''\<rparr>, ini = True, sta = exited,
             inf = info_exit0, str = 0, ech = [info_exit0], sch = [True], syn = True\<rparr>,
      task = Done, spawned = [GoSignalHandler, GoRunFn ''prog'' []],
      log = [Launched (Inr 42), LaunchSignal True, ResultSignal info_exit0, JoinClosed]\<rparr>"

text \<open>The start of that run, up to the process running.\<close>

definition sched_running :: "action list" where
  "sched_running = [CallStart ''prog'' [], RunLaunch t2020 (t2020 + 1000) (Inr 42), RunSch]"

definition s_running :: ctl where
  "s_running =
     \<lparr>obj = \<lparr>cin = None, out = None, err = None, env = None,
             usr = Some \<lparr>Uid = ''501'', Gid = ''20''\<rparr>, ini = True, sta = running,
             inf = \<lparr>Error = None, RunT = 0, Pid = 42, Exit = - 1,
                    StartT = 1577836800000000000, EndT = 0, Finished = False,
                    Signaled = False\<rparr>,
             str = 0, ech = [], sch = [True], syn = False\<rparr>,
      task = Waiting t2020, spawned = [GoSignalHandler, GoRunFn ''prog'' []],
      log = [Launched (Inr 42), LaunchSignal True]\<rparr>"

text \<open>
  A run in which \<open>Terminate\<close> is called on the running process, which then exits on its
  own with status 0, so that \<open>cmd.Wait\<close> returns no error.
\<close>

definition sched_term0 :: "action list" where
  "sched_term0 =
     sched_running @
     [CallTerminate None, RunWait (t2020 + 2000000000) None, RunInfo (t2020 + 2000001000),
      RunEch, RunClose]"

definition info_term0 :: Info where
  "info_term0 =
     \<lparr>Error = None, RunT = 0, Pid = 42, Exit = 0, StartT = 1577836800000000000,
      EndT = 1577836802000000000, Finished = False, Signaled = True\<rparr>"

definition s_term0 :: ctl where
  "s_term0 =
     \<lparr>obj = \<lparr>cin = None, out = None, err = None, env = None,
             usr = Some \<lparr>Uid = ''501'', Gid = ''20''\<rparr>, ini = True, sta = signaled,
             inf = info_term0, str = 0, ech = [info_term0], sch = [True], syn = True\<rparr>,
      task = Done, spawned = [GoSignalHandler, GoRunFn ''prog'' []],
      log = [Launched (Inr 42), LaunchSignal True, ResultSignal info_term0, JoinClosed]\<rparr>"

text \<open>The same with a process that dies of the SIGTERM: the wait status is 15.\<close>

definition sched_term15 :: "action list" where
  "sched_term15 =
     sched_running @
     [CallTerminate None, RunWait (t2020 + 2000000000) (Some (ExitError 15)),
      RunInfo (t2020 + 2000001000), RunEch, RunClose]"

definition info_term15 :: Info where
  "info_term15 =
     \<lparr>Error = Some (ExitError 15), RunT = 0, Pid = 42, Exit = 15,
      StartT = 1577836800000000000, EndT = 1577836802000000000, Finished = False,
      Signaled = True\<rparr>"

definition s_term15 :: ctl where
  "s_term15 =
     \<lparr>obj = \<lparr>cin = None, out = None, err = None, env = None,
             usr = Some \<lparr>Uid = ''501'', Gid = ''20''\<rparr>, ini = True, sta = signaled,
             inf = info_term15, str = 0, ech = [info_term15], sch = [True], syn = True\<rparr>,
      task = Done, spawned = [GoSignalHandler, GoRunFn ''prog'' []],
      log = [Launched (Inr 42), LaunchSignal True, ResultSignal info_term15, JoinClosed]\<rparr>"

text \<open>The state right after the \<open>Terminate\<close> of that run, and the rest of the run.\<close>

definition s_signaled :: ctl where
  "s_signaled =
     s_running\<lparr>obj := (obj s_running)\<lparr>sta := signaled,
       inf := (inf (obj s_running))\<lparr>Signaled := True\<rparr>\<rparr>\<rparr>"

definition sched_rest15 :: "action list" where
  "sched_rest15 =
     [RunWait (t2020 + 2000000000) (Some (ExitError 15)), RunInfo (t2020 + 2000001000),
      RunEch, RunClose]"

text \<open>A controller right after its first \<open>Start\<close>.\<close>

definition s_started :: "string \<Rightarrow> ctl" where
  "s_started name =
     \<lparr>obj = (New sys0 opts0)\<lparr>ini := True\<rparr>, task = Spawned name [],
      spawned = [GoSignalHandler, GoRunFn name []], log = []\<rparr>"

text \<open>
  Three more configurations: an empty environment list, a list of one variable, and a
  user whose ids are not numbers.
\<close>

definition opts_noenv :: Options where
  "opts_noenv = opts0\<lparr>Env := Some []\<rparr>"

definition opts_env :: Options where
  "opts_env = opts0\<lparr>Env := Some [''A=1'']\<rparr>"

definition opts_badid :: Options where
  "opts_badid = opts0\<lparr>Usr := Some \<lparr>Uid = ''nobody'', Gid = []\<rparr>\<rparr>"

text \<open>A user whose Uid is twenty nines and a letter, and whose Gid is that with a minus.\<close>

definition opts_bigid :: Options where
  "opts_bigid =
     opts0\<lparr>Usr := Some \<lparr>Uid = ''99999999999999999999x'',
                             Gid = ''-99999999999999999999x''\<rparr>\<rparr>"

text \<open>A process table of two records: pid 1 with parent 0, then pid 42 with parent 7.\<close>

definition table2 :: "byte list" where
  "table2 = kinfo_bytes 1 0 @ kinfo_bytes 42 7"

section \<open>The concrete runs are runs\<close>

lemmas run_defs = sys0_def opts0_def t2020_def boot_def New_def Start_def newCmd_def init_def
  Terminate_def complete_def endState_def exitErr_def Info_def ws_Signal_def ws_mask_def
  ws_stopped_def sch_cap_def ech_cap_def zeroTime_def UnixNano_def unixEpoch_def Let_def

lemma exec_exit0: "exec sys0 sched_exit0 (boot sys0 opts0) = Some s_exit0"
  by (simp add: run_defs sched_exit0_def s_exit0_def info_exit0_def)

lemma exec_running: "exec sys0 sched_running (boot sys0 opts0) = Some s_running"
  by (simp add: run_defs sched_running_def s_running_def)

lemma exec_term0: "exec sys0 sched_term0 (boot sys0 opts0) = Some s_term0"
  by (simp add: run_defs sched_running_def sched_term0_def s_term0_def info_term0_def)

lemma exec_term15: "exec sys0 sched_term15 (boot sys0 opts0) = Some s_term15"
  by (simp add: run_defs sched_running_def sched_term15_def s_term15_def info_term15_def)

section \<open>The exit code\<close>

lemma ws_Signal_pos: "ws_Signaled ws \<Longrightarrow> 0 < ws_Signal ws"
proof -
  assume "ws_Signaled ws"
  then have ne: "ws AND ws_mask \<noteq> 0" and ns: "ws AND ws_mask \<noteq> ws_stopped"
    by (simp_all add: ws_Signaled_def)
  have "0 < uint (ws AND ws_mask)"
    using ne uint_nonnegative [of "ws AND ws_mask"] uint_0_iff [of "ws AND ws_mask"]
    by linarith
  then show ?thesis
    using ns by (simp add: ws_Signal_def Let_def)
qed

lemma Info_Exit: "Exit (snd (Info now c)) = Exit (inf c)"
  by (simp add: Info_def Let_def split: status.splits)

lemma Info_Error: "Error (snd (Info now c)) = Error (inf c)"
  by (simp add: Info_def Let_def split: status.splits)

lemma complete_Error: "Error (inf (complete t now e c)) = e"
  by (simp add: complete_def endState_def Let_def)

lemma complete_Exit:
  "Exit (inf (complete t now e c)) = (case e of None \<Rightarrow> 0 | Some x \<Rightarrow> exitErr x)"
  by (simp add: complete_def endState_def Let_def)

text \<open>
  C7. Let \<open>v\<close> be the record that \<open>runFn\<close> sends on the result channel after
  \<open>complete\<close> has run with the error \<open>e\<close> of \<open>cmd.Start\<close> or \<open>cmd.Wait\<close>. With no
  error the exit code of \<open>v\<close> is 0. With an exit error whose wait status says the process
  was killed by a signal it is the number of the signal, which is positive. With an exit
  error whose wait status says the process exited it is the exit status, the second byte
  of the wait status. With any other error it is 0 and \<open>v\<close> carries that error.
\<close>

theorem complete_exit_code:
  "(let v = snd (Info now2 (complete t now e c))
    in (e = None \<longrightarrow> Exit v = 0 \<and> Error v = None)
     \<and> (\<forall>ws. e = Some (ExitError ws) \<and> ws_Signaled ws \<longrightarrow>
            Exit v = ws_Signal ws \<and> 0 < ws_Signal ws \<and> Error v \<noteq> None)
     \<and> (\<forall>ws. e = Some (ExitError ws) \<and> ws_Exited ws \<longrightarrow>
            Exit v = uint (drop_bit 8 ws) \<and> Error v \<noteq> None)
     \<and> (\<forall>x. e = Some x \<and> (\<forall>ws. x \<noteq> ExitError ws) \<longrightarrow> Exit v = 0 \<and> Error v = Some x))"
proof -
  have sig: "exitErr (ExitError ws) = ws_Signal ws" if "ws_Signaled ws" for ws
    using ws_Signal_pos [OF that] by (simp add: exitErr_def Let_def)
  have ex: "exitErr (ExitError ws) = uint (drop_bit 8 ws)" if "ws_Exited ws" for ws
    using that by (simp add: exitErr_def ws_Exited_def ws_Signal_def ws_ExitStatus_def
        ws_stopped_def ws_mask_def Let_def)
  have other: "exitErr x = 0" if "\<forall>ws. x \<noteq> ExitError ws" for x
    using that by (cases x) (simp_all add: exitErr_def)
  show ?thesis
    unfolding Let_def Info_Exit Info_Error complete_Error complete_Exit
    using sig ex other ws_Signal_pos by auto
qed

theorem complete_exit_code_witness:
  "Exit (snd (Info (t2020 + 3) (complete t2020 (t2020 + 2) None (obj s_running)))) = 0
   \<and> ws_Signaled 15
   \<and> Exit (snd (Info (t2020 + 3)
        (complete t2020 (t2020 + 2) (Some (ExitError 15)) (obj s_running)))) = 15
   \<and> ws_Exited 768
   \<and> Exit (snd (Info (t2020 + 3)
        (complete t2020 (t2020 + 2) (Some (ExitError 768)) (obj s_running)))) = 3
   \<and> Exit (snd (Info (t2020 + 3)
        (complete t2020 (t2020 + 2) (Some (ErrorString ''not found'')) (obj s_running)))) = 0
   \<and> Error (snd (Info (t2020 + 3)
        (complete t2020 (t2020 + 2) (Some (ErrorString ''not found'')) (obj s_running))))
      = Some (ErrorString ''not found'')"
proof -
  have s: "ws_Signaled 15" and x: "ws_Exited 768"
    by (simp_all add: ws_Signaled_def ws_Exited_def ws_mask_def ws_stopped_def)
  have sv: "ws_Signal 15 = 15"
    by (simp add: ws_Signal_def ws_mask_def ws_stopped_def)
  show ?thesis
    using s x sv
      complete_exit_code [of "t2020 + 3" t2020 "t2020 + 2" None "obj s_running"]
      complete_exit_code [of "t2020 + 3" t2020 "t2020 + 2" "Some (ExitError 15)" "obj s_running"]
      complete_exit_code [of "t2020 + 3" t2020 "t2020 + 2" "Some (ExitError 768)" "obj s_running"]
      complete_exit_code [of "t2020 + 3" t2020 "t2020 + 2" "Some (ErrorString ''not found'')"
        "obj s_running"]
    by (simp add: Let_def)
qed

section \<open>The command that \<open>newCmd\<close> builds\<close>

lemma atoi_loop_None: "(atoi_loop s n = None) = (\<not> list_all isDigit s)"
  by (induction s arbitrary: n) auto

lemma value_ge: "(n::nat) \<le> foldl (\<lambda>n ch. n * 10 + (of_char ch - 48)) n ds"
proof (induction ds arbitrary: n)
  case Nil
  show ?case by simp
next
  case (Cons ch ds)
  have "n \<le> n * 10 + (of_char ch - 48)"
    by simp
  also have "\<dots> \<le> foldl (\<lambda>n ch. n * 10 + (of_char ch - 48)) (n * 10 + (of_char ch - 48)) ds"
    by (rule Cons.IH)
  finally show ?case by simp
qed

lemma value_bound:
  "list_all isDigit ds \<Longrightarrow>
   foldl (\<lambda>n ch. n * 10 + (of_char ch - 48)) n ds < ((n::nat) + 1) * 10 ^ length ds"
proof (induction ds arbitrary: n)
  case Nil
  show ?case by simp
next
  case (Cons ch ds)
  from Cons.prems have r: "list_all isDigit ds" and i: "isDigit ch"
    by simp_all
  from i have d: "(of_char ch :: nat) - 48 \<le> 9"
    unfolding isDigit_def by linarith
  have "foldl (\<lambda>n ch. n * 10 + (of_char ch - 48)) (n * 10 + (of_char ch - 48)) ds
        < (n * 10 + (of_char ch - 48) + 1) * 10 ^ length ds"
    by (rule Cons.IH [OF r])
  also have "\<dots> \<le> ((n + 1) * 10) * 10 ^ length ds"
    using d by (intro mult_right_mono) simp_all
  also have "\<dots> = (n + 1) * 10 ^ length (ch # ds)"
    by (simp add: algebra_simps)
  finally show ?case by simp
qed

lemma short_no_overflow:
  assumes "length s < 19"
  shows "decimal_value (takeWhile isDigit s) \<le> maxUint64"
proof -
  have a: "list_all isDigit (takeWhile isDigit s)"
    by (simp add: list_all_iff) (meson set_takeWhileD)
  have l: "length (takeWhile isDigit s) \<le> 18"
    using assms length_takeWhile_le [of isDigit s] by simp
  have "decimal_value (takeWhile isDigit s) < (10::nat) ^ length (takeWhile isDigit s)"
    using value_bound [OF a, of 0] by (simp add: decimal_value_def)
  also have "\<dots> \<le> (10::nat) ^ 18"
    using l by (intro power_increasing) simp_all
  also have "\<dots> \<le> maxUint64"
    by (simp add: maxUint64_def)
  finally show ?thesis by simp
qed

lemma ParseUint_loop_eq:
  "n \<le> maxUint64 \<Longrightarrow>
   ParseUint_loop s n =
     (if maxUint64 < foldl (\<lambda>n ch. n * 10 + (of_char ch - 48)) n (takeWhile isDigit s)
      then (maxUint64, Some ErrRange)
      else if list_all isDigit s
      then (foldl (\<lambda>n ch. n * 10 + (of_char ch - 48)) n s, None)
      else (0, Some ErrSyntax))"
proof (induction s arbitrary: n)
  case Nil
  then show ?case by simp
next
  case (Cons ch s)
  let ?n1 = "n * 10 + (of_char ch - 48)"
  show ?case
  proof (cases "isDigit ch")
    case False
    with Cons.prems show ?thesis by simp
  next
    case True
    show ?thesis
    proof (cases "maxUint64 div 10 + 1 \<le> n \<or> maxUint64 < ?n1")
      case True
      then have "maxUint64 < ?n1"
        by (auto simp: maxUint64_def)
      then have "maxUint64 < foldl (\<lambda>n ch. n * 10 + (of_char ch - 48)) ?n1 (takeWhile isDigit s)"
        using value_ge [of ?n1 "takeWhile isDigit s"] by simp
      with True \<open>isDigit ch\<close> show ?thesis
        by (auto simp: Let_def)
    next
      case False
      then have "ParseUint_loop (ch # s) n = ParseUint_loop s ?n1" and le: "?n1 \<le> maxUint64"
        using \<open>isDigit ch\<close> by (simp_all add: Let_def)
      then show ?thesis
        using Cons.IH [OF le] \<open>isDigit ch\<close> by simp
    qed
  qed
qed

lemma ParseUint_invalid:
  assumes "s = [] \<or> \<not> list_all isDigit s"
  shows "ParseUint s =
     (if maxUint64 < decimal_value (takeWhile isDigit s) then (maxUint64, Some ErrRange)
      else (0, Some ErrSyntax))"
proof (cases "s = []")
  case True
  then show ?thesis by (simp add: ParseUint_def decimal_value_def)
next
  case False
  with assms have "\<not> list_all isDigit s" by simp
  with False show ?thesis
    using ParseUint_loop_eq [of 0 s] by (simp add: ParseUint_def decimal_value_def)
qed

lemma validDecimal_unsign: "validDecimal s = (unsign s \<noteq> [] \<and> list_all isDigit (unsign s))"
  by (cases s) (auto simp: validDecimal_def unsign_def)

lemma unsign_eq:
  "s \<noteq> [] \<Longrightarrow> (if hd s = CHR ''+'' \<or> hd s = CHR ''-'' then tl s else s) = unsign s"
  "s \<noteq> [] \<Longrightarrow> (if hd s = CHR ''-'' \<or> hd s = CHR ''+'' then tl s else s) = unsign s"
  by (cases s; auto simp: unsign_def)+

lemma length_unsign: "length (unsign s) \<le> length s"
  by (cases s) (simp_all add: unsign_def)

lemma ParseInt_invalid:
  assumes "\<not> validDecimal s"
  shows "ParseInt s =
     (if leading_overflow s
      then (if negative s then - (2 ^ 63) else 2 ^ 63 - 1, Some ErrRange)
      else (0, Some ErrSyntax))"
proof (cases "s = []")
  case True
  then show ?thesis
    by (simp add: ParseInt_def leading_overflow_def unsign_def decimal_value_def)
next
  case False
  from assms have u: "unsign s = [] \<or> \<not> list_all isDigit (unsign s)"
    by (auto simp: validDecimal_unsign)
  show ?thesis
    using False ParseUint_invalid [OF u]
    by (simp add: ParseInt_def Let_def unsign_eq leading_overflow_def negative_def
        maxUint64_def ErrSyntax_def ErrRange_def)
qed

lemma Atoi_invalid:
  assumes "\<not> validDecimal s"
  shows "Atoi s =
     (if leading_overflow s
      then (if negative s then - (2 ^ 63) else 2 ^ 63 - 1, Some ErrRange)
      else (0, Some ErrSyntax))"
proof -
  consider (empty) "s = []" | (short) "s \<noteq> []" "length s < 19" | (long) "19 \<le> length s"
    by fastforce
  then show ?thesis
  proof cases
    case empty
    then show ?thesis
      using ParseInt_invalid [OF assms] by (simp add: Atoi_def)
  next
    case long
    then show ?thesis
      using ParseInt_invalid [OF assms] by (simp add: Atoi_def)
  next
    case short
    then have "length (unsign s) < 19"
      using length_unsign [of s] by simp
    then have no: "\<not> leading_overflow s"
      using short_no_overflow [of "unsign s"] by (simp add: leading_overflow_def)
    from assms have "unsign s = [] \<or> \<not> list_all isDigit (unsign s)"
      by (auto simp: validDecimal_unsign)
    then have "unsign s = [] \<or> atoi_loop (unsign s) 0 = None"
      by (simp add: atoi_loop_None)
    then show ?thesis
      using short no by (auto simp: Atoi_def Let_def unsign_eq)
  qed
qed

lemma word32_MaxInt64: "(word_of_int (2 ^ 63 - 1) :: 32 word) = 4294967295"
  by simp

lemma word32_MinInt64: "(word_of_int (- (2 ^ 63)) :: 32 word) = 0"
  by simp

lemma Atoi_invalid_uint32:
  assumes "\<not> validDecimal s"
  shows "(word_of_int (fst (Atoi s)) :: 32 word) =
     (if leading_overflow s \<and> \<not> negative s then 4294967295 else 0)"
  using word32_MaxInt64 word32_MinInt64 by (simp add: Atoi_invalid [OF assms])

text \<open>
  C10, as amended. For a controller that has a user, \<open>newCmd\<close> does not fail, and
  where the Uid string of the user is not a decimal integer the credential of the command
  has uid 0, with one exception: where the string has no minus sign and its digits up to
  the first other byte already write a number beyond uint64, \<open>Atoi\<close> returns the largest
  int64 with its range error and the uid is 4294967295. The same for the Gid string and
  the gid.
\<close>

theorem newCmd_invalid_id:
  assumes "usr c = Some u"
  shows "\<exists>cmd. newCmd sys c name args = Some cmd
           \<and> (\<not> validDecimal (Uid u) \<longrightarrow>
                cred_Uid (Credential (SysProcAttr cmd)) =
                  (if leading_overflow (Uid u) \<and> \<not> negative (Uid u) then 4294967295 else 0))
           \<and> (\<not> validDecimal (Gid u) \<longrightarrow>
                cred_Gid (Credential (SysProcAttr cmd)) =
                  (if leading_overflow (Gid u) \<and> \<not> negative (Gid u) then 4294967295 else 0))"
  using assms by (auto simp: newCmd_def Let_def syscallAttrs_def Atoi_invalid_uint32)

lemma Atoi_big: "Atoi ''99999999999999999999x'' = (9223372036854775807, Some ErrRange)"
  by (simp add: Atoi_def ParseInt_def ParseUint_def isDigit_def maxUint64_def Let_def
      ErrSyntax_def ErrRange_def)

lemma Atoi_big_neg: "Atoi ''-99999999999999999999x'' = (- 9223372036854775808, Some ErrRange)"
  by (simp add: Atoi_def ParseInt_def ParseUint_def isDigit_def maxUint64_def Let_def
      ErrSyntax_def ErrRange_def)

lemma usr_badid: "usr (New sys0 opts_badid) = Some \<lparr>Uid = ''nobody'', Gid = []\<rparr>"
  by (simp add: New_def opts_badid_def opts0_def)

lemma usr_bigid:
  "usr (New sys0 opts_bigid)
     = Some \<lparr>Uid = ''99999999999999999999x'', Gid = ''-99999999999999999999x''\<rparr>"
  by (simp add: New_def opts_bigid_def opts0_def)

lemma bigid_overflow:
  "\<not> validDecimal ''99999999999999999999x''" "leading_overflow ''99999999999999999999x''"
  "\<not> negative ''99999999999999999999x''"
  "\<not> validDecimal ''-99999999999999999999x''" "negative ''-99999999999999999999x''"
  by (simp_all add: validDecimal_def leading_overflow_def negative_def unsign_def
      decimal_value_def isDigit_def maxUint64_def)

text \<open>
  C10 as it was stated fails for a Uid of twenty nines and a letter: it is not a decimal
  integer, \<open>Atoi\<close> meets the overflow before the letter and returns the largest int64,
  and the uid of the credential is 4294967295, not 0.
\<close>

theorem newCmd_invalid_id_counterexample:
  "usr (New sys0 opts_bigid)
     = Some \<lparr>Uid = ''99999999999999999999x'', Gid = ''-99999999999999999999x''\<rparr>
   \<and> \<not> validDecimal ''99999999999999999999x''
   \<and> Atoi ''99999999999999999999x'' = (9223372036854775807, Some ErrRange)
   \<and> map_option (cred_Uid \<circ> Credential \<circ> SysProcAttr)
        (newCmd sys0 (New sys0 opts_bigid) ''prog'' []) = Some 4294967295"
  using usr_bigid bigid_overflow(1) Atoi_big Atoi_big_neg
  by (simp add: newCmd_def syscallAttrs_def Let_def)

theorem newCmd_invalid_id_witness:
  "usr (New sys0 opts_badid) = Some \<lparr>Uid = ''nobody'', Gid = []\<rparr>
   \<and> \<not> validDecimal ''nobody'' \<and> \<not> validDecimal []
   \<and> (\<exists>cmd. newCmd sys0 (New sys0 opts_badid) ''prog'' [] = Some cmd
         \<and> cred_Uid (Credential (SysProcAttr cmd)) = 0
         \<and> cred_Gid (Credential (SysProcAttr cmd)) = 0)
   \<and> usr (New sys0 opts_bigid)
       = Some \<lparr>Uid = ''99999999999999999999x'', Gid = ''-99999999999999999999x''\<rparr>
   \<and> \<not> validDecimal ''99999999999999999999x''
   \<and> \<not> validDecimal ''-99999999999999999999x''
   \<and> (\<exists>cmd. newCmd sys0 (New sys0 opts_bigid) ''prog'' [] = Some cmd
         \<and> cred_Uid (Credential (SysProcAttr cmd)) = 4294967295
         \<and> cred_Gid (Credential (SysProcAttr cmd)) = 0)"
proof -
  have v: "\<not> validDecimal ''nobody''" "\<not> validDecimal []"
    "\<not> leading_overflow ''nobody''" "\<not> leading_overflow []"
    by (simp_all add: validDecimal_def leading_overflow_def unsign_def decimal_value_def
        isDigit_def maxUint64_def)
  have a: "\<exists>cmd. newCmd sys0 (New sys0 opts_badid) ''prog'' [] = Some cmd
         \<and> cred_Uid (Credential (SysProcAttr cmd)) = 0
         \<and> cred_Gid (Credential (SysProcAttr cmd)) = 0"
    using v newCmd_invalid_id [OF usr_badid, of sys0 "''prog''" "[]"] by simp
  have b: "\<exists>cmd. newCmd sys0 (New sys0 opts_bigid) ''prog'' [] = Some cmd
         \<and> cred_Uid (Credential (SysProcAttr cmd)) = 4294967295
         \<and> cred_Gid (Credential (SysProcAttr cmd)) = 0"
    using bigid_overflow newCmd_invalid_id [OF usr_bigid, of sys0 "''prog''" "[]"] by simp
  show ?thesis
    by (intro conjI) (rule usr_badid usr_bigid v bigid_overflow a b)+
qed


text \<open>
  C9, as amended. For a controller that has a user: where the configuration gave an
  environment list that is not empty, the environment of the command is that list, with
  nothing of the controlling process's environment; where it gave no list, or an empty one,
  the environment of the command is the whole environment of the controlling process.
\<close>

theorem newCmd_env:
  assumes "usr c = Some u"
  shows "\<exists>cmd. newCmd sys c name args = Some cmd
           \<and> (\<forall>l. env c = Some l \<and> l \<noteq> [] \<longrightarrow> cmd_Env cmd = Some l)
           \<and> (env c = None \<or> env c = Some [] \<longrightarrow> cmd_Env cmd = Some (Environ sys))"
  using assms by (auto simp: newCmd_def Let_def len_def)

text \<open>
  C9 as it was stated fails for a configuration that supplies the empty list: the command
  gets the environment of the controlling process, not the empty environment.
\<close>

theorem newCmd_env_counterexample:
  "env (New sys0 opts_noenv) = Some []
   \<and> map_option cmd_Env (newCmd sys0 (New sys0 opts_noenv) ''prog'' [])
       = Some (Some [''PATH=/bin''])"
  by (simp add: newCmd_def New_def opts_noenv_def opts0_def sys0_def len_def Let_def)

lemma usr_opts_env: "usr (New sys0 opts_env) = Some \<lparr>Uid = ''501'', Gid = ''20''\<rparr>"
  by (simp add: New_def opts_env_def opts0_def)

lemma usr_opts0: "usr (New sys0 opts0) = Some \<lparr>Uid = ''501'', Gid = ''20''\<rparr>"
  by (simp add: New_def opts0_def)

theorem newCmd_env_witness:
  "env (New sys0 opts_env) = Some [''A=1'']
   \<and> map_option cmd_Env (newCmd sys0 (New sys0 opts_env) ''prog'' []) = Some (Some [''A=1''])
   \<and> env (New sys0 opts0) = None
   \<and> map_option cmd_Env (newCmd sys0 (New sys0 opts0) ''prog'' []) = Some (Some (Environ sys0))"
proof -
  have e: "env (New sys0 opts_env) = Some [''A=1'']" "env (New sys0 opts0) = None"
    by (simp_all add: New_def opts_env_def opts0_def)
  show ?thesis
    using e newCmd_env [OF usr_opts_env, of sys0 "''prog''" "[]"]
      newCmd_env [OF usr_opts0, of sys0 "''prog''" "[]"]
    by auto
qed

section \<open>\<open>Terminate\<close>\<close>

lemma Info_Signaled: "Signaled (snd (Info now c)) = Signaled (inf c)"
  by (simp add: Info_def Let_def split: status.splits)

lemma Info_Finished:
  "Finished (snd (Info now c)) = (Finished (inf c) \<or> sta c = exited)"
  by (auto simp: Info_def Let_def split: status.splits)

text \<open>
  C3, as amended. \<open>Terminate\<close> returns nil, makes no system call and leaves the
  controller as it is when the state is uninitialized or the Finished flag is set.
  Otherwise it sets the state to signaled and the Signaled flag, sends SIGTERM to the
  negated pid, that is to the process group, and returns what \<open>syscall.Kill\<close> returned;
  the record that \<open>runFn\<close> then sends on the result channel, after \<open>complete\<close> has
  run with the result \<open>e\<close> of \<open>cmd.Wait\<close>, has Signaled set, Finished not set and
  the error \<open>e\<close>; where \<open>e\<close> is an exit error whose wait status gives signal 15, the
  error is not nil and the exit code is 15.
\<close>

theorem Terminate_effect:
  "(sta c = uninitialized \<or> Finished (inf c) \<longrightarrow> Terminate k c = (c, [], None))
   \<and> (sta c \<noteq> uninitialized \<and> \<not> Finished (inf c) \<longrightarrow>
        Terminate k c =
          (c\<lparr>sta := signaled, inf := (inf c)\<lparr>Signaled := True\<rparr>\<rparr>,
           [Kill (- Pid (inf c)) SIGTERM], k)
        \<and> (let v = snd (Info now2 (complete t now e (fst (Terminate k c))))
           in Signaled v \<and> \<not> Finished v \<and> Error v = e
              \<and> (\<forall>ws. e = Some (ExitError ws) \<and> ws_Signal ws = SIGTERM \<longrightarrow>
                    Error v \<noteq> None \<and> Exit v = 15)))"
  by (auto simp: Terminate_def Let_def Info_Signaled Info_Finished Info_Error Info_Exit
      complete_def endState_def exitErr_def SIGTERM_def)

text \<open>
  C3 as it was stated fails when the process ends otherwise than by the SIGTERM: here
  \<open>Terminate\<close> is called on the running process, which exits with status 0, and the record
  sent on the result channel has no error and the exit code 0.
\<close>

theorem Terminate_effect_counterexample:
  "exec sys0 sched_running (boot sys0 opts0) = Some s_running
   \<and> sta (obj s_running) = running
   \<and> fst (snd (Terminate None (obj s_running))) = [Kill (- 42) SIGTERM]
   \<and> exec sys0 sched_term0 (boot sys0 opts0) = Some s_term0
   \<and> log s_term0 = [Launched (Inr 42), LaunchSignal True, ResultSignal info_term0, JoinClosed]
   \<and> Error info_term0 = None \<and> Exit info_term0 = 0"
  using exec_running exec_term0
  by (simp add: s_running_def s_term0_def info_term0_def Terminate_def)

theorem Terminate_effect_witness:
  "sta (New sys0 opts0) = uninitialized
   \<and> Terminate None (New sys0 opts0) = (New sys0 opts0, [], None)
   \<and> Finished (inf (obj s_exit0))
   \<and> Terminate None (obj s_exit0) = (obj s_exit0, [], None)
   \<and> sta (obj s_running) = running \<and> \<not> Finished (inf (obj s_running))
   \<and> ws_Signal 15 = SIGTERM
   \<and> fst (snd (Terminate None (obj s_running))) = [Kill (- 42) SIGTERM]
   \<and> Exit (snd (Info (t2020 + 3) (complete t2020 (t2020 + 2) (Some (ExitError 15))
        (fst (Terminate None (obj s_running)))))) = 15"
proof -
  have a: "sta (New sys0 opts0) = uninitialized"
    by (simp add: New_def)
  have b: "Finished (inf (obj s_exit0))"
    by (simp add: s_exit0_def info_exit0_def)
  have c: "sta (obj s_running) \<noteq> uninitialized \<and> \<not> Finished (inf (obj s_running))"
    and c': "sta (obj s_running) = running" and p: "Pid (inf (obj s_running)) = 42"
    by (simp_all add: s_running_def)
  have d: "ws_Signal 15 = SIGTERM"
    by (simp add: ws_Signal_def ws_mask_def ws_stopped_def SIGTERM_def)
  show ?thesis
    using a b c c' d p
      Terminate_effect [of "New sys0 opts0" None "t2020 + 3" t2020 "t2020 + 2" None]
      Terminate_effect [of "obj s_exit0" None "t2020 + 3" t2020 "t2020 + 2" None]
      Terminate_effect [of "obj s_running" None "t2020 + 3" t2020 "t2020 + 2"
        "Some (ExitError 15)"]
    by (auto simp: Let_def)
qed

section \<open>\<open>Start\<close> on a controller that has been started\<close>

text \<open>
  C1, as amended. On a controller whose once-gate has been passed, \<open>Start\<close> starts no
  goroutine and changes nothing but the result channel. While the buffer of that channel
  is empty it returns, having put there the reuse record, whose error is "already
  executed, can not reuse CmdIo" and whose Finished flag is set; the launch-accepted
  channel, the state and the Info record of the controller are as before. While the buffer
  holds a record the call does not return.
\<close>

theorem Start_again:
  assumes "ini c"
  shows "(ech c = [] \<longrightarrow> Start c name args = Returns (c\<lparr>ech := [reuseInfo]\<rparr>, []))
       \<and> (ech c \<noteq> [] \<longrightarrow> Start c name args = Blocks)
       \<and> Error reuseInfo = Some (ErrorString ''already executed, can not reuse CmdIo'')
       \<and> Finished reuseInfo"
  using assms by (cases "ech c") (simp_all add: Start_def ech_cap_def reuseInfo_def)

text \<open>
  C1 as it was stated fails once the first run has put its record on the result channel
  and nobody has received it: the second \<open>Start\<close> waits for a receiver.
\<close>

theorem Start_again_counterexample:
  "exec sys0 sched_exit0 (boot sys0 opts0) = Some s_exit0
   \<and> ini (obj s_exit0)
   \<and> Start (obj s_exit0) ''prog'' [] = Blocks"
  using exec_exit0 by (simp add: s_exit0_def Start_def ech_cap_def)

theorem Start_again_witness:
  "ini (obj s_running) \<and> ech (obj s_running) = []
   \<and> Start (obj s_running) ''prog'' [] = Returns ((obj s_running)\<lparr>ech := [reuseInfo]\<rparr>, [])
   \<and> ini (obj s_exit0) \<and> ech (obj s_exit0) \<noteq> []
   \<and> Start (obj s_exit0) ''prog'' [] = Blocks"
proof -
  have a: "ini (obj s_running)" "ech (obj s_running) = []"
    by (simp_all add: s_running_def)
  have b: "ini (obj s_exit0)" "ech (obj s_exit0) \<noteq> []"
    by (simp_all add: s_exit0_def)
  show ?thesis
    using a b Start_again [OF a(1), of "''prog''" "[]"] Start_again [OF b(1), of "''prog''" "[]"]
    by simp
qed

section \<open>\<open>Info\<close> on a running controller\<close>

text \<open>
  C4. \<open>Info\<close> subtracts the field \<open>str\<close> from the clock, and no operation ever sets
  \<open>str\<close>: it is the zero Time in every run. The start time is recorded in the Info
  record only. So for a process started on January 1, 2020, \<open>Info\<close> called five seconds
  later reports the largest Duration there is, not five seconds.
\<close>

theorem Info_running_elapsed:
  "exec sys0 sched_running (boot sys0 opts0) = Some s_running
   \<and> sta (obj s_running) = running
   \<and> StartT (inf (obj s_running)) = UnixNano t2020
   \<and> RunT (snd (Info (t2020 + 5000000000) (obj s_running))) = 9223372036854775807"
  using exec_running
  by (simp add: s_running_def Info_def Let_def time_Sub_def maxDuration_def minDuration_def
      t2020_def UnixNano_def unixEpoch_def)

lemma Info_running:
  "sta c = running \<Longrightarrow> Info now c = (c\<lparr>inf := (inf c)\<lparr>RunT := time_Sub now (str c)\<rparr>\<rparr>,
     (inf c)\<lparr>RunT := time_Sub now (str c)\<rparr>)"
  by (simp add: Info_def Let_def)

lemma time_Sub_mono: "now \<le> now' \<Longrightarrow> time_Sub now u \<le> time_Sub now' u"
  by (simp add: time_Sub_def Let_def maxDuration_def minDuration_def)

lemma Info_exited: "sta c = exited \<Longrightarrow> Finished (snd (Info now c))"
  by (simp add: Info_def Let_def)

lemma fire_str: "fire sys a s = Some s' \<Longrightarrow> str (obj s') = str (obj s)"
  by (cases a)
     (auto simp: Start_def Terminate_def Info_def init_def complete_def endState_def Let_def
        split: if_splits option.splits list.splits task.splits sum.splits status.splits)

lemma exec_str: "exec sys as s = Some s' \<Longrightarrow> str (obj s') = str (obj s)"
  by (induction as arbitrary: s) (auto split: option.splits dest: fire_str)

lemma str_never_set: "exec sys as (boot sys opts) = Some s \<Longrightarrow> str (obj s) = zeroTime"
  by (drule exec_str) (simp add: boot_def New_def)

section \<open>The children of a process\<close>

text \<open>
  What the loop of \<open>children\<close> parses: it goes on while \<open>i < buf.Len()\<close>, with
  \<open>i\<close> the end of the record to parse, so of a table of \<open>n\<close> whole records it
  parses the first \<open>n - 1\<close>.
\<close>

lemma loop_guard: "(j * 648 + 648 < n) = (j < (n - 1) div 648)" for j n :: nat
proof -
  have "(j < (n - 1) div 648) = (Suc j \<le> (n - 1) div 648)"
    by auto
  also have "\<dots> = (Suc j * 648 \<le> n - 1)"
    by (simp add: less_eq_div_iff_mult_less_eq)
  also have "\<dots> = (j * 648 + 648 < n)"
    by auto
  finally show ?thesis by simp
qed

lemma binary_Read_record:
  "j * kinfoStructSize + kinfoStructSize < length buf \<Longrightarrow>
   binary_Read (take kinfoStructSize (drop (j * kinfoStructSize) buf)) = Inr (record_at buf j)"
  by (auto simp: binary_Read_def record_at_def Let_def kinfoStructSize_def)

lemma children_loop_eq:
  "children_loop (j * kinfoStructSize) (j * kinfoStructSize + kinfoStructSize) buf procs =
     Inr (procs @ map (record_at buf) [j ..< (length buf - 1) div kinfoStructSize])"
proof (induction "(length buf - 1) div kinfoStructSize - j" arbitrary: j procs)
  case 0
  then have "\<not> j < (length buf - 1) div kinfoStructSize"
    by simp
  then have "\<not> j * kinfoStructSize + kinfoStructSize < length buf"
    by (simp add: kinfoStructSize_def loop_guard)
  then show ?case
    using 0 by (subst children_loop.simps) simp
next
  case (Suc d)
  then have lt: "j < (length buf - 1) div kinfoStructSize"
    by simp
  then have g: "j * kinfoStructSize + kinfoStructSize < length buf"
    by (simp add: kinfoStructSize_def loop_guard)
  have d: "d = (length buf - 1) div kinfoStructSize - Suc j"
    using Suc.hyps(2) by simp
  have "children_loop (j * kinfoStructSize) (j * kinfoStructSize + kinfoStructSize) buf procs =
        children_loop (Suc j * kinfoStructSize) (Suc j * kinfoStructSize + kinfoStructSize) buf
          (procs @ [record_at buf j])"
    using g by (subst children_loop.simps) (simp add: binary_Read_record add.commute)
  also have "\<dots> = Inr ((procs @ [record_at buf j]) @
      map (record_at buf) [Suc j ..< (length buf - 1) div kinfoStructSize])"
    by (rule Suc.hyps(1) [OF d])
  finally show ?case
    using lt by (simp add: upt_conv_Cons)
qed

lemma children_eq:
  "children ppid (Inr buf) =
     Inr (map (\<lambda>p. sint (kp_Pid p)) (filter (\<lambda>p. ppid = sint (kp_PPid p))
            (map (record_at buf) [0 ..< (length buf - 1) div kinfoStructSize])))"
  using children_loop_eq [of 0 buf "[]"] by (simp add: children_def)

lemma children_error: "children ppid (Inl e) = Inl e"
  by (simp add: children_def)

lemma table2_length: "length table2 = 2 * kinfoStructSize"
  by (simp add: table2_def kinfo_bytes_def le_bytes_def kinfoStructSize_def)

lemma table2_children_7: "children 7 (Inr table2) = Inr []"
  by (simp add: children_def table2_def kinfo_bytes_def le_bytes_def kinfoStructSize_def
      binary_Read_def le32_def nth_append children_loop.simps)

lemma table2_children_0: "children 0 (Inr table2) = Inr [1]"
  by (simp add: children_def table2_def kinfo_bytes_def le_bytes_def kinfoStructSize_def
      binary_Read_def le32_def nth_append children_loop.simps)

lemma table2_record_1: "kp_Pid (record_at table2 1) = 42 \<and> kp_PPid (record_at table2 1) = 7"
  by (simp add: table2_def kinfo_bytes_def le_bytes_def kinfoStructSize_def
      record_at_def le32_def nth_append Let_def)

text \<open>
  C6. The table \<open>table2\<close> holds two whole records: pid 1 with parent 0, and pid 42
  with parent 7. \<open>children\<close> finds pid 1 among the children of 0, and finds no child of 7:
  it never parses the last record of the table.
\<close>

theorem children_last_record:
  "length table2 = 2 * kinfoStructSize
   \<and> kp_Pid (record_at table2 1) = 42 \<and> kp_PPid (record_at table2 1) = 7
   \<and> children 0 (Inr table2) = Inr [1]
   \<and> children 7 (Inr table2) = Inr []"
  using table2_length table2_record_1 table2_children_0 table2_children_7 by simp

section \<open>What every interleaving keeps\<close>

lemma Terminate_inv_obj: "inv_obj c \<Longrightarrow> inv_obj (fst (Terminate k c))"
  by (simp add: inv_obj_def Terminate_def)

lemma Terminate_uninit: "sta c = uninitialized \<Longrightarrow> fst (Terminate k c) = c"
  by (simp add: Terminate_def)

lemma Terminate_frame:
  "ini (fst (Terminate k c)) = ini c" "ech (fst (Terminate k c)) = ech c"
  "sch (fst (Terminate k c)) = sch c" "syn (fst (Terminate k c)) = syn c"
  "str (fst (Terminate k c)) = str c"
  by (simp_all add: Terminate_def)

lemma Info_inv_obj: "inv_obj c \<Longrightarrow> inv_obj (fst (Info now c))"
  by (auto simp: inv_obj_def Info_def Let_def split: status.splits)

lemma Info_uninit: "sta c = uninitialized \<Longrightarrow> fst (Info now c) = c"
  by (simp add: Info_def)

lemma Info_snapshot: "snd (Info now c) = inf (fst (Info now c))"
  by (simp add: Info_def Let_def)

lemma Info_frame:
  "ini (fst (Info now c)) = ini c" "ech (fst (Info now c)) = ech c"
  "sch (fst (Info now c)) = sch c" "syn (fst (Info now c)) = syn c"
  "str (fst (Info now c)) = str c" "sta (fst (Info now c)) = sta c"
  by (simp_all add: Info_def Let_def split: status.splits)

lemma inv_obj_exclusive: "inv_obj c \<Longrightarrow> exclusive (inf c)"
  by (auto simp: inv_obj_def exclusive_def)

lemma complete_inv_obj: "inv_obj c \<Longrightarrow> inv_obj (complete t now e c)"
  by (auto simp: inv_obj_def complete_def endState_def Let_def)

lemma complete_frame:
  "ini (complete t now e c) = ini c" "ech (complete t now e c) = ech c"
  "sch (complete t now e c) = sch c" "syn (complete t now e c) = syn c"
  "str (complete t now e c) = str c"
  by (simp_all add: complete_def endState_def Let_def)

lemma init_inv_obj: "inv_obj c \<Longrightarrow> sta c = uninitialized \<Longrightarrow> inv_obj (init t pid c)"
  by (auto simp: inv_obj_def init_def)

lemma init_frame:
  "ini (init t pid c) = ini c" "ech (init t pid c) = ech c"
  "sch (init t pid c) = sch c" "syn (init t pid c) = syn c"
  "str (init t pid c) = str c"
  by (simp_all add: init_def)

lemma Start_first:
  "\<not> ini c \<Longrightarrow> Start c name args = Returns (c\<lparr>ini := True\<rparr>, [GoSignalHandler, GoRunFn name args])"
  by (simp add: Start_def)

lemma Start_later:
  "ini c \<Longrightarrow> Start c name args =
     (if ech c = [] then Returns (c\<lparr>ech := [reuseInfo]\<rparr>, []) else Blocks)"
  by (cases "ech c") (simp_all add: Start_def ech_cap_def)

lemma exclusive_reuseInfo: "exclusive reuseInfo"
  by (simp add: exclusive_def reuseInfo_def)

lemma boot_inv_flags: "inv_flags (boot sys opts)"
  by (simp add: inv_flags_def inv_obj_def boot_def New_def Let_def)


lemma fire_Start_first:
  "\<not> ini (obj s) \<Longrightarrow> fire sys (CallStart name args) s =
     (if task s = Crashed then None
      else Some (s\<lparr>obj := (obj s)\<lparr>ini := True\<rparr>, task := Spawned name args,
                   spawned := spawned s @ [GoSignalHandler, GoRunFn name args],
                   log := log s\<rparr>))"
  by (simp add: Start_first)

lemma fire_Start_later:
  "ini (obj s) \<Longrightarrow> fire sys (CallStart name args) s =
     (if task s = Crashed \<or> ech (obj s) \<noteq> [] then None
      else Some (s\<lparr>obj := (obj s)\<lparr>ech := [reuseInfo]\<rparr>,
                   log := log s @ [ReuseSignal reuseInfo]\<rparr>))"
  by (simp add: Start_later)

lemma fire_Start_inv_flags:
  assumes "inv_flags s" and "fire sys (CallStart name args) s = Some s'"
  shows "inv_flags s'"
proof (cases "ini (obj s)")
  case False
  with assms(2) have s': "s' = s\<lparr>obj := (obj s)\<lparr>ini := True\<rparr>, task := Spawned name args,
      spawned := spawned s @ [GoSignalHandler, GoRunFn name args], log := log s\<rparr>"
    using fire_Start_first [OF False, of sys name args]
    by (simp del: fire.simps split: if_splits)
  from assms(1) False have "task s = Idle"
    by (simp add: inv_flags_def)
  with assms(1) show ?thesis
    unfolding s' by (simp add: inv_flags_def inv_obj_def)
next
  case True
  with assms(2) have s': "s' = s\<lparr>obj := (obj s)\<lparr>ech := [reuseInfo]\<rparr>,
      log := log s @ [ReuseSignal reuseInfo]\<rparr>" and e: "ech (obj s) = []"
    using fire_Start_later [OF True, of sys name args]
    by (simp_all del: fire.simps split: if_splits)
  from assms(1) show ?thesis
    unfolding s' by (simp add: inv_flags_def inv_obj_def exclusive_reuseInfo)
qed
lemma fire_inv_flags: "inv_flags s \<Longrightarrow> fire sys a s = Some s' \<Longrightarrow> inv_flags s'"
proof (cases a)
  case (CallStart name args)
  then show "inv_flags s \<Longrightarrow> fire sys a s = Some s' \<Longrightarrow> inv_flags s'"
    using fire_Start_inv_flags by simp
next
  case (CallTerminate k)
  then show "inv_flags s \<Longrightarrow> fire sys a s = Some s' \<Longrightarrow> inv_flags s'"
    by (cases "task s")
       (auto simp: inv_flags_def Terminate_inv_obj Terminate_frame Terminate_uninit)
next
  case (CallInfo now)
  then show "inv_flags s \<Longrightarrow> fire sys a s = Some s' \<Longrightarrow> inv_flags s'"
    by (cases "task s") (auto simp: inv_flags_def Info_inv_obj Info_frame)
next
  case RecvEch
  then show "inv_flags s \<Longrightarrow> fire sys a s = Some s' \<Longrightarrow> inv_flags s'"
    by (cases "task s"; cases "ech (obj s)") (auto simp: inv_flags_def inv_obj_def)
next
  case RecvSch
  then show "inv_flags s \<Longrightarrow> fire sys a s = Some s' \<Longrightarrow> inv_flags s'"
    by (cases "task s"; cases "sch (obj s)") (auto simp: inv_flags_def inv_obj_def)
next
  case (RunLaunch t now r)
  then show "inv_flags s \<Longrightarrow> fire sys a s = Some s' \<Longrightarrow> inv_flags s'"
    by (cases "task s"; cases r)
       (auto simp: inv_flags_def complete_inv_obj complete_frame init_inv_obj init_frame
          split: option.splits)
next
  case RunSch
  then show "inv_flags s \<Longrightarrow> fire sys a s = Some s' \<Longrightarrow> inv_flags s'"
    by (cases "task s") (auto simp: inv_flags_def inv_obj_def split: if_splits)
next
  case (RunWait now e)
  then show "inv_flags s \<Longrightarrow> fire sys a s = Some s' \<Longrightarrow> inv_flags s'"
    by (cases "task s") (auto simp: inv_flags_def complete_inv_obj complete_frame)
next
  case (RunInfo now)
  then show "inv_flags s \<Longrightarrow> fire sys a s = Some s' \<Longrightarrow> inv_flags s'"
    by (cases "task s")
       (auto simp: inv_flags_def Info_inv_obj Info_frame Info_snapshot inv_obj_exclusive)
next
  case RunEch
  then show "inv_flags s \<Longrightarrow> fire sys a s = Some s' \<Longrightarrow> inv_flags s'"
    by (cases "task s") (auto simp: inv_flags_def inv_obj_def split: if_splits)
next
  case RunClose
  then show "inv_flags s \<Longrightarrow> fire sys a s = Some s' \<Longrightarrow> inv_flags s'"
    by (cases "task s") (auto simp: inv_flags_def inv_obj_def split: if_splits)
qed

lemma exec_inv_flags: "inv_flags s \<Longrightarrow> exec sys as s = Some s' \<Longrightarrow> inv_flags s'"
  by (induction as arbitrary: s) (auto split: option.splits dest: fire_inv_flags)

section \<open>The two flags exclude each other\<close>

lemma Terminate_Signaled: "Signaled (inf c) \<Longrightarrow> Signaled (inf (fst (Terminate k c)))"
  by (simp add: Terminate_def)

lemma Info_fst_Signaled: "Signaled (inf (fst (Info now c))) = Signaled (inf c)"
  by (simp add: Info_def Let_def split: status.splits)

lemma complete_Signaled: "Signaled (inf (complete t now e c)) = Signaled (inf c)"
  by (simp add: complete_def endState_def Let_def)

lemma init_Signaled: "Signaled (inf (init t pid c)) = Signaled (inf c)"
  by (simp add: init_def)

lemma fire_Signaled:
  "fire sys a s = Some s' \<Longrightarrow> Signaled (inf (obj s)) \<Longrightarrow> Signaled (inf (obj s'))"
proof (cases a)
  case (CallStart name args)
  then show "fire sys a s = Some s' \<Longrightarrow> Signaled (inf (obj s)) \<Longrightarrow> Signaled (inf (obj s'))"
    using fire_Start_first [of s sys name args] fire_Start_later [of s sys name args]
    by (cases "ini (obj s)") (auto simp del: fire.simps split: if_splits)
next
  case (RunLaunch t now r)
  then show "fire sys a s = Some s' \<Longrightarrow> Signaled (inf (obj s)) \<Longrightarrow> Signaled (inf (obj s'))"
    by (cases "task s"; cases r)
       (auto simp: complete_Signaled init_Signaled split: option.splits)
qed (cases "task s"; cases "ech (obj s)"; cases "sch (obj s)";
     auto simp: Terminate_Signaled Info_fst_Signaled complete_Signaled split: if_splits)+

lemma exec_Signaled:
  "exec sys as s = Some s' \<Longrightarrow> Signaled (inf (obj s)) \<Longrightarrow> Signaled (inf (obj s'))"
  by (induction as arbitrary: s) (auto split: option.splits dest: fire_Signaled)

lemma exec_append:
  "exec sys (as @ bs) s = (case exec sys as s of None \<Rightarrow> None | Some s' \<Rightarrow> exec sys bs s')"
  by (induction as arbitrary: s) (auto split: option.splits)

lemma reachable_inv_flags: "exec sys as (boot sys opts) = Some s \<Longrightarrow> inv_flags s"
  using exec_inv_flags [OF boot_inv_flags] by blast

text \<open>
  C2. In every state that a controller reaches, by any interleaving of calls of
  \<open>Start\<close>, \<open>Terminate\<close> and \<open>Info\<close>, receptions from the channels and steps of
  \<open>runFn\<close>, the Info record does not have Finished and Signaled both set, and neither
  has any record waiting on the result channel. Once Signaled is set it stays set and
  Finished is never set, whatever happens next, the completion of the process included.
\<close>

theorem flags_exclusive:
  assumes "exec sys as (boot sys opts) = Some s"
  shows "\<not> (Finished (inf (obj s)) \<and> Signaled (inf (obj s)))
       \<and> (\<forall>v \<in> set (ech (obj s)). \<not> (Finished v \<and> Signaled v))
       \<and> (Signaled (inf (obj s)) \<longrightarrow>
            (\<forall>bs s'. exec sys bs s = Some s' \<longrightarrow>
               Signaled (inf (obj s')) \<and> \<not> Finished (inf (obj s'))))"
proof -
  have i: "inv_flags s"
    using assms by (rule reachable_inv_flags)
  then have a: "\<not> (Finished (inf (obj s)) \<and> Signaled (inf (obj s)))"
    by (auto simp: inv_flags_def inv_obj_def)
  from i have b: "\<forall>v \<in> set (ech (obj s)). \<not> (Finished v \<and> Signaled v)"
    by (auto simp: inv_flags_def list_all_iff exclusive_def)
  have c: "Signaled (inf (obj s')) \<and> \<not> Finished (inf (obj s'))"
    if sg: "Signaled (inf (obj s))" and ex: "exec sys bs s = Some s'" for bs s'
  proof -
    have "inv_flags s'"
      using i ex by (rule exec_inv_flags)
    moreover have "Signaled (inf (obj s'))"
      using ex sg by (rule exec_Signaled)
    ultimately show ?thesis
      by (auto simp: inv_flags_def inv_obj_def)
  qed
  from a b c show ?thesis by blast
qed
lemma exec_signaled:
  "exec sys0 (sched_running @ [CallTerminate None]) (boot sys0 opts0) = Some s_signaled"
  using exec_running by (simp add: exec_append s_signaled_def s_running_def Terminate_def)

lemma exec_rest15: "exec sys0 sched_rest15 s_signaled = Some s_term15"
  by (simp add: sched_rest15_def s_signaled_def s_running_def s_term15_def info_term15_def
      complete_def endState_def exitErr_def Info_def ws_Signal_def ws_mask_def ws_stopped_def
      ech_cap_def t2020_def UnixNano_def unixEpoch_def Let_def)

theorem flags_exclusive_witness:
  "exec sys0 (sched_running @ [CallTerminate None]) (boot sys0 opts0) = Some s_signaled
   \<and> Signaled (inf (obj s_signaled))
   \<and> exec sys0 sched_rest15 s_signaled = Some s_term15
   \<and> Signaled (inf (obj s_term15)) \<and> \<not> Finished (inf (obj s_term15))"
proof -
  have sg: "Signaled (inf (obj s_signaled))"
    by (simp add: s_signaled_def)
  show ?thesis
    using sg exec_signaled exec_rest15 flags_exclusive [OF exec_signaled] by blast
qed

section \<open>The interrupt handlers of a process\<close>

lemma fire_spawned:
  "fire sys a s = Some s' \<Longrightarrow>
   count_list (spawned s) GoSignalHandler = (if ini (obj s) then 1 else 0) \<Longrightarrow>
   count_list (spawned s') GoSignalHandler = (if ini (obj s') then 1 else 0)"
proof (cases a)
  case (CallStart name args)
  then show "fire sys a s = Some s' \<Longrightarrow>
   count_list (spawned s) GoSignalHandler = (if ini (obj s) then 1 else 0) \<Longrightarrow>
   count_list (spawned s') GoSignalHandler = (if ini (obj s') then 1 else 0)"
    using fire_Start_first [of s sys name args] fire_Start_later [of s sys name args]
    by (cases "ini (obj s)") (auto simp del: fire.simps split: if_splits)
next
  case (RunLaunch t now r)
  then show "fire sys a s = Some s' \<Longrightarrow>
   count_list (spawned s) GoSignalHandler = (if ini (obj s) then 1 else 0) \<Longrightarrow>
   count_list (spawned s') GoSignalHandler = (if ini (obj s') then 1 else 0)"
    by (cases "task s"; cases r)
       (auto simp: complete_frame init_frame split: option.splits)
qed (cases "task s"; cases "ech (obj s)"; cases "sch (obj s)";
     auto simp: Terminate_frame Info_frame complete_frame split: if_splits)+

lemma exec_spawned:
  "exec sys as s = Some s' \<Longrightarrow>
   count_list (spawned s) GoSignalHandler = (if ini (obj s) then 1 else 0) \<Longrightarrow>
   count_list (spawned s') GoSignalHandler = (if ini (obj s') then 1 else 0)"
  by (induction as arbitrary: s) (auto split: option.splits dest: fire_spawned)

lemma reachable_spawned:
  "exec sys as (boot sys opts) = Some s \<Longrightarrow>
   count_list (spawned s) GoSignalHandler = (if ini (obj s) then 1 else 0)"
  by (drule exec_spawned) (simp_all add: boot_def New_def)

text \<open>
  C5, as amended. \<open>signalHandler\<close> is started once by each controller that has been
  started, on its first \<open>Start\<close>, and never by a controller that has not: in a process
  whose controllers have reached the states \<open>cs\<close>, the number of handlers started is the
  number of controllers whose once-gate has been passed.
\<close>

theorem handlers_per_controller:
  assumes "list_all2 (\<lambda>(as, opts) s. exec sys as (boot sys opts) = Some s) runs cs"
  shows "installed cs = length (filter (\<lambda>s. ini (obj s)) cs)"
  using assms
  by (induction runs cs rule: list_all2_induct)
     (auto simp: installed_def dest: reachable_spawned)
lemma exec_started: "exec sys0 [CallStart name []] (boot sys0 opts0) = Some (s_started name)"
  by (simp add: boot_def New_def Start_def s_started_def opts0_def)

text \<open>
  C5 as it was stated fails with two controllers: each one's first \<open>Start\<close> starts a
  \<open>signalHandler\<close> of its own.
\<close>

theorem handlers_per_controller_counterexample:
  "exec sys0 [CallStart ''a'' []] (boot sys0 opts0) = Some (s_started ''a'')
   \<and> exec sys0 [CallStart ''b'' []] (boot sys0 opts0) = Some (s_started ''b'')
   \<and> installed [s_started ''a'', s_started ''b''] = 2"
  using exec_started [of "''a''"] exec_started [of "''b''"]
  by (simp add: installed_def s_started_def)

theorem handlers_per_controller_witness:
  "list_all2 (\<lambda>(as, opts) s. exec sys0 as (boot sys0 opts) = Some s)
     [([CallStart ''a'' []], opts0), ([], opts0)] [s_started ''a'', boot sys0 opts0]
   \<and> installed [s_started ''a'', boot sys0 opts0] = 1"
proof -
  have r: "list_all2 (\<lambda>(as, opts) s. exec sys0 as (boot sys0 opts) = Some s)
     [([CallStart ''a'' []], opts0), ([], opts0)] [s_started ''a'', boot sys0 opts0]"
    using exec_started [of "''a''"] by simp
  show ?thesis
    using r handlers_per_controller [OF r] by (simp add: s_started_def boot_def New_def)
qed

section \<open>The order of the signals\<close>

lemma list_ex_eq: "list_ex (\<lambda>e. e = x) evs = (x \<in> set evs)"
  by (auto simp: list_ex_iff)

lemma before_snoc_found: "list_ex P evs \<Longrightarrow> before P (evs @ [x]) = before P evs"
  by (auto simp: before_def list_ex_iff takeWhile_append1)

lemma before_snoc_fresh:
  "\<not> list_ex P evs \<Longrightarrow> before P (evs @ [x]) = (if P x then evs else evs @ [x])"
  by (simp add: before_def list_ex_iff takeWhile_append2)

lemma before_snoc_join:
  "JoinClosed \<notin> set evs \<Longrightarrow> before (\<lambda>e. e = JoinClosed) (evs @ [JoinClosed]) = evs"
  "JoinClosed \<in> set evs \<Longrightarrow>
     before (\<lambda>e. e = JoinClosed) (evs @ [x]) = before (\<lambda>e. e = JoinClosed) evs"
  by (simp_all add: before_snoc_found before_snoc_fresh list_ex_eq)

lemma boot_inv_log: "inv_log (boot sys opts)"
  by (simp add: inv_log_def boot_def New_def Let_def before_def)

lemma fire_Start_inv_log:
  assumes "inv_flags s" and "inv_log s" and "fire sys (CallStart name args) s = Some s'"
  shows "inv_log s'"
proof (cases "ini (obj s)")
  case False
  with assms(3) have s': "s' = s\<lparr>obj := (obj s)\<lparr>ini := True\<rparr>, task := Spawned name args,
      spawned := spawned s @ [GoSignalHandler, GoRunFn name args], log := log s\<rparr>"
    using fire_Start_first [OF False, of sys name args]
    by (simp del: fire.simps split: if_splits)
  from assms(1) False have "task s = Idle"
    by (simp add: inv_flags_def)
  with assms(2) show ?thesis
    unfolding s' by (simp add: inv_log_def)
next
  case True
  with assms(3) have s': "s' = s\<lparr>obj := (obj s)\<lparr>ech := [reuseInfo]\<rparr>,
      log := log s @ [ReuseSignal reuseInfo]\<rparr>"
    using fire_Start_later [OF True, of sys name args]
    by (simp_all del: fire.simps split: if_splits)
  from assms(2) show ?thesis
    unfolding s' by (clarsimp simp: inv_log_def before_snoc_found before_snoc_join)
qed

lemma fire_Terminate_inv_log:
  "inv_log s \<Longrightarrow> fire sys (CallTerminate k) s = Some s' \<Longrightarrow> inv_log s'"
  by (cases "task s") (clarsimp simp: inv_log_def Terminate_frame)+

lemma fire_Info_inv_log:
  "inv_log s \<Longrightarrow> fire sys (CallInfo now) s = Some s' \<Longrightarrow> inv_log s'"
  by (cases "task s") (clarsimp simp: inv_log_def Info_frame)+

lemma fire_RecvEch_inv_log:
  "inv_log s \<Longrightarrow> fire sys RecvEch s = Some s' \<Longrightarrow> inv_log s'"
  by (cases "task s"; cases "ech (obj s)") (clarsimp simp: inv_log_def)+

lemma fire_RecvSch_inv_log:
  "inv_log s \<Longrightarrow> fire sys RecvSch s = Some s' \<Longrightarrow> inv_log s'"
  by (cases "task s"; cases "sch (obj s)") (clarsimp simp: inv_log_def)+

lemma fire_RunLaunch_inv_log:
  "inv_log s \<Longrightarrow> fire sys (RunLaunch t now r) s = Some s' \<Longrightarrow> inv_log s'"
  by (cases "task s"; cases r)
     (clarsimp simp: inv_log_def complete_frame init_frame before_snoc_fresh
        split: option.splits)+

lemma fire_RunSch_inv_log:
  "inv_log s \<Longrightarrow> fire sys RunSch s = Some s' \<Longrightarrow> inv_log s'"
  by (cases "task s")
     (clarsimp simp: inv_log_def before_snoc_fresh split: if_splits)+

lemma fire_RunWait_inv_log:
  "inv_log s \<Longrightarrow> fire sys (RunWait now e) s = Some s' \<Longrightarrow> inv_log s'"
  by (cases "task s") (clarsimp simp: inv_log_def complete_frame)+

lemma fire_RunInfo_inv_log:
  "inv_log s \<Longrightarrow> fire sys (RunInfo now) s = Some s' \<Longrightarrow> inv_log s'"
  by (cases "task s") (clarsimp simp: inv_log_def Info_frame)+

lemma fire_RunEch_inv_log:
  "inv_log s \<Longrightarrow> fire sys RunEch s = Some s' \<Longrightarrow> inv_log s'"
  by (cases "task s")
     (clarsimp simp: inv_log_def before_snoc_fresh split: if_splits)+

lemma fire_RunClose_inv_log:
  "inv_log s \<Longrightarrow> fire sys RunClose s = Some s' \<Longrightarrow> inv_log s'"
  by (cases "task s")
     (clarsimp simp: inv_log_def before_snoc_found before_snoc_join split: if_splits)+

lemma fire_inv_log:
  assumes "inv_flags s" and "inv_log s" and "fire sys a s = Some s'"
  shows "inv_log s'"
proof (cases a)
  case (CallStart name args)
  show ?thesis
    by (rule fire_Start_inv_log [OF assms(1) assms(2) assms(3) [unfolded CallStart]])
next
  case (CallTerminate k)
  show ?thesis
    by (rule fire_Terminate_inv_log [OF assms(2) assms(3) [unfolded CallTerminate]])
next
  case (CallInfo now)
  show ?thesis
    by (rule fire_Info_inv_log [OF assms(2) assms(3) [unfolded CallInfo]])
next
  case RecvEch
  show ?thesis
    by (rule fire_RecvEch_inv_log [OF assms(2) assms(3) [unfolded RecvEch]])
next
  case RecvSch
  show ?thesis
    by (rule fire_RecvSch_inv_log [OF assms(2) assms(3) [unfolded RecvSch]])
next
  case (RunLaunch t now r)
  show ?thesis
    by (rule fire_RunLaunch_inv_log [OF assms(2) assms(3) [unfolded RunLaunch]])
next
  case RunSch
  show ?thesis
    by (rule fire_RunSch_inv_log [OF assms(2) assms(3) [unfolded RunSch]])
next
  case (RunWait now e)
  show ?thesis
    by (rule fire_RunWait_inv_log [OF assms(2) assms(3) [unfolded RunWait]])
next
  case (RunInfo now)
  show ?thesis
    by (rule fire_RunInfo_inv_log [OF assms(2) assms(3) [unfolded RunInfo]])
next
  case RunEch
  show ?thesis
    by (rule fire_RunEch_inv_log [OF assms(2) assms(3) [unfolded RunEch]])
next
  case RunClose
  show ?thesis
    by (rule fire_RunClose_inv_log [OF assms(2) assms(3) [unfolded RunClose]])
qed

lemma exec_inv_log:
  "inv_flags s \<Longrightarrow> inv_log s \<Longrightarrow> exec sys as s = Some s' \<Longrightarrow> inv_log s'"
proof (induction as arbitrary: s)
  case Nil
  then show ?case by simp
next
  case (Cons a as)
  from Cons.prems(3) obtain s1 where f: "fire sys a s = Some s1" and e: "exec sys as s1 = Some s'"
    by (auto split: option.splits)
  have "inv_flags s1"
    using Cons.prems(1) f by (rule fire_inv_flags)
  moreover have "inv_log s1"
    using Cons.prems(1,2) f by (rule fire_inv_log)
  ultimately show ?case
    using e by (rule Cons.IH)
qed

lemma reachable_inv_log: "exec sys as (boot sys opts) = Some s \<Longrightarrow> inv_log s"
  using exec_inv_log [OF boot_inv_flags boot_inv_log] by blast

lemma result_sent_not_at_sch: "result_sent t \<Longrightarrow> \<not> at_sch_true t"
  by (cases t) simp_all

text \<open>
  C8. In the history of every run: where \<open>cmd.Start\<close> has succeeded and \<open>runFn\<close> has
  put its record on the result channel, \<open>true\<close> has been put on the launch-accepted channel
  before that; the Join channel is closed exactly when the history says so, and where it
  is, \<open>runFn\<close> has put its record on the result channel before the closing; and a
  \<open>Start\<close> on a controller whose once-gate has been passed adds the reuse record to the
  result channel and changes neither the launch-accepted channel, nor the Join channel,
  nor where \<open>runFn\<close> stands.
\<close>

theorem launch_before_result:
  assumes "exec sys as (boot sys opts) = Some s"
  shows "(list_ex is_started (log s) \<and> list_ex is_result (log s) \<longrightarrow>
            LaunchSignal True \<in> set (before is_result (log s)))
       \<and> (syn (obj s) = (JoinClosed \<in> set (log s)))
       \<and> (syn (obj s) \<longrightarrow> list_ex is_result (before (\<lambda>e. e = JoinClosed) (log s)))
       \<and> (\<forall>name args s'. ini (obj s) \<and> fire sys (CallStart name args) s = Some s' \<longrightarrow>
              log s' = log s @ [ReuseSignal reuseInfo] \<and> ech (obj s') = ech (obj s) @ [reuseInfo]
              \<and> sch (obj s') = sch (obj s) \<and> syn (obj s') = syn (obj s) \<and> task s' = task s)"
proof -
  have i: "inv_log s"
    using assms by (rule reachable_inv_log)
  have a: "LaunchSignal True \<in> set (before is_result (log s))"
    if "list_ex is_started (log s)" and "list_ex is_result (log s)"
  proof -
    from i that(2) have "\<not> at_sch_true (task s)"
      by (simp add: inv_log_def result_sent_not_at_sch)
    with i that(1) have "LaunchSignal True \<in> set (log s)"
      by (simp add: inv_log_def)
    with i that(2) show ?thesis
      by (simp add: inv_log_def)
  qed
  from i have b: "syn (obj s) = (JoinClosed \<in> set (log s))"
    by (simp add: inv_log_def)
  from i b have c: "syn (obj s) \<longrightarrow> list_ex is_result (before (\<lambda>e. e = JoinClosed) (log s))"
    by (simp add: inv_log_def)
  have d: "log s' = log s @ [ReuseSignal reuseInfo] \<and> ech (obj s') = ech (obj s) @ [reuseInfo]
      \<and> sch (obj s') = sch (obj s) \<and> syn (obj s') = syn (obj s) \<and> task s' = task s"
    if "ini (obj s)" and "fire sys (CallStart name args) s = Some s'" for name args s'
    using that(2) fire_Start_later [OF that(1), of sys name args]
    by (auto simp del: fire.simps split: if_splits)
  from a b c d show ?thesis by blast
qed

theorem launch_before_result_witness:
  "exec sys0 sched_exit0 (boot sys0 opts0) = Some s_exit0
   \<and> list_ex is_started (log s_exit0) \<and> list_ex is_result (log s_exit0)
   \<and> LaunchSignal True \<in> set (before is_result (log s_exit0))
   \<and> syn (obj s_exit0)
   \<and> list_ex is_result (before (\<lambda>e. e = JoinClosed) (log s_exit0))
   \<and> exec sys0 sched_running (boot sys0 opts0) = Some s_running
   \<and> ini (obj s_running)
   \<and> fire sys0 (CallStart ''prog'' []) s_running =
       Some (s_running\<lparr>obj := (obj s_running)\<lparr>ech := [reuseInfo]\<rparr>,
              log := log s_running @ [ReuseSignal reuseInfo]\<rparr>)
   \<and> sch ((obj s_running)\<lparr>ech := [reuseInfo]\<rparr>) = sch (obj s_running)"
proof -
  have a: "list_ex is_started (log s_exit0)" "list_ex is_result (log s_exit0)"
    "syn (obj s_exit0)"
    by (simp_all add: s_exit0_def)
  have b: "ini (obj s_running)"
    by (simp add: s_running_def)
  have c: "fire sys0 (CallStart ''prog'' []) s_running =
       Some (s_running\<lparr>obj := (obj s_running)\<lparr>ech := [reuseInfo]\<rparr>,
              log := log s_running @ [ReuseSignal reuseInfo]\<rparr>)"
    by (simp add: s_running_def Start_def ech_cap_def)
  have p: "LaunchSignal True \<in> set (before is_result (log s_exit0))"
    using launch_before_result [OF exec_exit0] a by blast
  have q: "list_ex is_result (before (\<lambda>e. e = JoinClosed) (log s_exit0))"
    using launch_before_result [OF exec_exit0] a by blast
  have d: "sch ((obj s_running)\<lparr>ech := [reuseInfo]\<rparr>) = sch (obj s_running)"
    by simp
  show ?thesis
    by (intro conjI) (rule exec_exit0 exec_running a b c d p q)+
qed

end
